theory Spec2Isabelle
  imports Main "HOL-Library.Sublist"
begin

section \<open>Python strings\<close>

text \<open>
  The classifier works on Python \<^verbatim>\<open>str\<close> values. A \<^typ>\<open>string\<close> stands for a
  Python string whose code points are all below 256, each \<^typ>\<open>char\<close> being the code
  point of the same number. The character classes below are the ones that
  \<^verbatim>\<open>str.isalnum\<close>, \<^verbatim>\<open>str.isspace\<close>, \<^verbatim>\<open>str.lower\<close> and the \<^verbatim>\<open>re\<close> module
  (\<^verbatim>\<open>\w\<close>, \<^verbatim>\<open>\s\<close>, \<^verbatim>\<open>\d\<close>, \<^verbatim>\<open>[A-Za-z]\<close>) use on that range.
\<close>

definition code_point :: "char \<Rightarrow> nat" where
  "code_point c = of_char c"

definition in_range :: "nat \<Rightarrow> nat \<Rightarrow> char \<Rightarrow> bool" where
  "in_range lo hi c = (lo \<le> code_point c \<and> code_point c \<le> hi)"

definition isalnum :: "char \<Rightarrow> bool" where
  "isalnum c =
     (in_range 48 57 c \<or> in_range 65 90 c \<or> in_range 97 122 c \<or>
      code_point c \<in> {170, 178, 179, 181, 185, 186, 188, 189, 190} \<or>
      in_range 192 214 c \<or> in_range 216 246 c \<or> in_range 248 255 c)"

definition is_word_char :: "char \<Rightarrow> bool" where
  \<comment> \<open>the class \<^verbatim>\<open>\w\<close>\<close>
  "is_word_char c = (isalnum c \<or> c = CHR ''_'')"

definition isspace :: "char \<Rightarrow> bool" where
  \<comment> \<open>\<^verbatim>\<open>str.isspace\<close>, which is also the class \<^verbatim>\<open>\s\<close> and what \<^verbatim>\<open>strip\<close> and \<^verbatim>\<open>split\<close> remove\<close>
  "isspace c = (in_range 9 13 c \<or> in_range 28 32 c \<or> code_point c = 133 \<or> code_point c = 160)"

definition is_digit :: "char \<Rightarrow> bool" where
  \<comment> \<open>the class \<^verbatim>\<open>\d\<close>\<close>
  "is_digit c = in_range 48 57 c"

definition is_ascii_letter :: "char \<Rightarrow> bool" where
  \<comment> \<open>the class \<^verbatim>\<open>[A-Za-z]\<close>, with or without \<^verbatim>\<open>re.IGNORECASE\<close>\<close>
  "is_ascii_letter c = (in_range 65 90 c \<or> in_range 97 122 c)"

definition lower_char :: "char \<Rightarrow> char" where
  "lower_char c =
     (if in_range 65 90 c \<or> (in_range 192 222 c \<and> code_point c \<noteq> 215)
      then char_of (code_point c + 32) else c)"

definition str_lower :: "string \<Rightarrow> string" where
  "str_lower s = map lower_char s"

definition str_strip :: "string \<Rightarrow> string" where
  "str_strip s = rev (dropWhile isspace (rev (dropWhile isspace s)))"

text \<open>
  \<^verbatim>\<open>str.split()\<close> with no argument: the maximal runs of characters that are not
  white space, in order. The first argument is the token being read.
\<close>

fun split_ws :: "string \<Rightarrow> string \<Rightarrow> string list" where
  "split_ws cur [] = (if cur = [] then [] else [cur])"
| "split_ws cur (c # cs) =
     (if isspace c then (if cur = [] then split_ws [] cs else cur # split_ws [] cs)
      else split_ws (cur @ [c]) cs)"

definition str_split :: "string \<Rightarrow> string list" where
  "str_split s = split_ws [] s"

text \<open>The substring test \<^verbatim>\<open>sub in s\<close>.\<close>

fun str_in :: "string \<Rightarrow> string \<Rightarrow> bool" where
  "str_in sub [] = (sub = [])"
| "str_in sub (c # cs) = (if prefix sub (c # cs) then True else str_in sub cs)"

section \<open>Regular expressions\<close>

text \<open>
  The patterns of the classifier are sequences of five kinds of item: the word
  boundary \<^verbatim>\<open>\b\<close>, a literal text (what \<^verbatim>\<open>re.escape\<close> produces), a choice between
  literal texts, \<^verbatim>\<open>C+\<close> and \<^verbatim>\<open>C{m,n}\<close> for a character class \<open>C\<close>. A pattern is
  matched from a position of the text given by the character before it (if any)
  and the text that follows; the flag says whether \<^verbatim>\<open>re.IGNORECASE\<close> is set.
\<close>

datatype item =
    WordB
  | Lit string
  | Choice "string list"
  | Plus "char \<Rightarrow> bool"
  | Repeat nat nat "char \<Rightarrow> bool"

definition word_boundary :: "char option \<Rightarrow> char option \<Rightarrow> bool" where
  "word_boundary prev nxt =
     ((case prev of None \<Rightarrow> False | Some c \<Rightarrow> is_word_char c) \<noteq>
      (case nxt of None \<Rightarrow> False | Some c \<Rightarrow> is_word_char c))"

definition first_char :: "string \<Rightarrow> char option" where
  "first_char s = (case s of [] \<Rightarrow> None | c # _ \<Rightarrow> Some c)"

definition char_eq :: "bool \<Rightarrow> char \<Rightarrow> char \<Rightarrow> bool" where
  "char_eq ignorecase a b = (if ignorecase then lower_char a = lower_char b else a = b)"

text \<open>
  Reading a literal at the current position: the character before the rest and
  the rest of the text, or \<open>None\<close> when the text does not start with the literal.
\<close>

fun read_lit :: "bool \<Rightarrow> string \<Rightarrow> char option \<Rightarrow> string \<Rightarrow> (char option \<times> string) option" where
  "read_lit ic [] prev s = Some (prev, s)"
| "read_lit ic (k # ks) prev [] = None"
| "read_lit ic (k # ks) prev (c # cs) =
     (if char_eq ic k c then read_lit ic ks (Some c) cs else None)"

text \<open>
  \<open>matches ic items prev s\<close>: the sequence \<open>items\<close> matches some prefix of \<open>s\<close>,
  which \<open>prev\<close> precedes. A repetition of a class may stop at any admissible
  length (the engine backtracks), so every length is tried.
\<close>

fun matches :: "bool \<Rightarrow> item list \<Rightarrow> char option \<Rightarrow> string \<Rightarrow> bool" where
  "matches ic [] prev s = True"
| "matches ic (WordB # items) prev s =
     (if word_boundary prev (first_char s) then matches ic items prev s else False)"
| "matches ic (Lit w # items) prev s =
     (case read_lit ic w prev s of
        None \<Rightarrow> False
      | Some (prev', rest) \<Rightarrow> matches ic items prev' rest)"
| "matches ic (Choice ws # items) prev s =
     list_ex (\<lambda>w. case read_lit ic w prev s of
                     None \<Rightarrow> False
                   | Some (prev', rest) \<Rightarrow> matches ic items prev' rest) ws"
| "matches ic (Plus cls # items) prev s =
     list_ex (\<lambda>k. matches ic items (Some (s ! (k - 1))) (drop k s))
       [1 ..< Suc (length (takeWhile cls s))]"
| "matches ic (Repeat m n cls # items) prev s =
     list_ex (\<lambda>k. matches ic items (if k = 0 then prev else Some (s ! (k - 1))) (drop k s))
       [m ..< Suc (min n (length (takeWhile cls s)))]"

text \<open>\<^verbatim>\<open>re.search\<close>: the pattern matches from some position of the text.\<close>

fun search_from :: "bool \<Rightarrow> item list \<Rightarrow> char option \<Rightarrow> string \<Rightarrow> bool" where
  "search_from ic items prev [] = matches ic items prev []"
| "search_from ic items prev (c # cs) =
     (if matches ic items prev (c # cs) then True else search_from ic items (Some c) cs)"

definition re_search :: "bool \<Rightarrow> item list \<Rightarrow> string \<Rightarrow> bool" where
  "re_search ic items text = search_from ic items None text"

section \<open>The classifier\<close>

subsection \<open>Word boundary matcher\<close>

text \<open>
  \<^verbatim>\<open>pattern = r"\b" + re.escape(keyword) + r"\b"; return bool(re.search(pattern, text))\<close>
\<close>

definition contains_keyword :: "string \<Rightarrow> string \<Rightarrow> bool" where
  "contains_keyword text keyword = re_search False [WordB, Lit keyword, WordB] text"

subsection \<open>Keyword lists\<close>

definition DEFINITE_SQL :: "string list" where
  "DEFINITE_SQL =
    [''how many'', ''count'', ''number of'', ''total number'',
     ''how many products in stock'', ''how many available'', ''average'', ''avg'',
     ''mean'', ''sum'', ''total'', ''average price'', ''avg price'',
     ''average rating'', ''avg rating'', ''average discount'', ''avg discount'',
     ''average delivery'', ''avg delivery'', ''average score'', ''avg score'',
     ''total stock'', ''total inventory'', ''stock available'', ''total sales'',
     ''total units'', ''units sold'', ''total revenue'', ''revenue'',
     ''total reviews'', ''review count'', ''most expensive'', ''highest price'',
     ''costliest'', ''cheapest'', ''lowest price'', ''least expensive'',
     ''best rated'', ''highest rated'', ''top rated'', ''worst rated'',
     ''lowest rated'', ''best selling'', ''most sold'', ''top selling'', ''popular'',
     ''highest discount'', ''most discount'', ''best deal'', ''biggest discount'',
     ''fastest delivery'', ''quickest delivery'', ''highest score'', ''best score'',
     ''highest seller rating'', ''best seller'', ''most reviewed'', ''most reviews'',
     ''longest warranty'', ''best warranty'', ''lightest'', ''heaviest'', ''under'',
     ''below'', ''less than'', ''cheaper than'', ''above'', ''over'', ''more than'',
     ''greater than'', ''between'', ''with rating above'', ''rating above'',
     ''with rating below'', ''rating below'', ''rating greater'', ''rating less'',
     ''sort by price'', ''order by price'', ''sort by rating'', ''order by rating'',
     ''sort by discount'', ''top 5'', ''top 10'', ''top 3'', ''first 5'',
     ''first 10'', ''in stock'', ''out of stock'', ''list all'', ''show all'',
     ''all products'', ''group by'', ''breakdown'', ''distribution'', ''minimum'',
     ''maximum'', ''which city'', ''seller count'', ''how many sellers'',
     ''how many cities'', ''listed in'', ''listed on'', ''listed after'',
     ''listed before'', ''newest'', ''oldest'', ''recent'', ''returnable products'',
     ''non returnable'', ''accept cod'', ''accept upi'', ''accept card'',
     ''accept wallet'', ''payment mode'']"

definition DEFINITE_SEMANTIC :: "string list" where
  "DEFINITE_SEMANTIC =
    [''what is the price'', ''price of'', ''cost of'', ''how much is'',
     ''how much does'', ''tell me about'', ''describe'', ''details of'',
     ''info about'', ''information about'', ''about the product'', ''is there'',
     ''do you have'', ''is it available'', ''available in'', ''warranty of'',
     ''warranty on'', ''return policy of'', ''return window'', ''delivery time for'',
     ''when will'', ''color of'', ''size of'', ''weight of'', ''seller of'',
     ''who sells'', ''where is'', ''payment modes for'', ''how to pay'',
     ''rating of'', ''reviews of'', ''discount on'', ''offer on'',
     ''seller rating of'', ''show me'', ''find me'', ''search for'', ''recommend'',
     ''suggest'', ''similar to'', ''like the'', ''is there any'', ''any product'',
     ''any brand'', ''do you sell'']"

text \<open>
  \<^verbatim>\<open>r"\b(model|edition|series|prime|ultra|pro|max|mini|lite|plus)\b"\<close> and
  \<^verbatim>\<open>r"\b[A-Za-z]+\s+\d{2,4}\b"\<close>
\<close>

definition PRODUCT_NAME_PATTERNS :: "item list list" where
  "PRODUCT_NAME_PATTERNS =
    [[WordB,
      Choice [''model'', ''edition'', ''series'', ''prime'', ''ultra'', ''pro'', ''max'',
              ''mini'', ''lite'', ''plus''],
      WordB],
     [WordB, Plus is_ascii_letter, Plus isspace, Repeat 2 4 is_digit, WordB]]"

definition OVERRIDE_SQL_KEYWORDS :: "string list" where
  "OVERRIDE_SQL_KEYWORDS =
    [''how many'', ''count'', ''average'', ''avg'', ''total'', ''sum'', ''list all'',
     ''show all'', ''top 5'', ''top 10'', ''top 3'']"

subsection \<open>Product name detector, override, confidence scorer\<close>

definition is_product_name_query :: "string \<Rightarrow> bool" where
  "is_product_name_query q = list_ex (\<lambda>pattern. re_search True pattern q) PRODUCT_NAME_PATTERNS"

definition has_override_sql :: "string \<Rightarrow> bool" where
  "has_override_sql q = list_ex (\<lambda>kw. contains_keyword q kw) OVERRIDE_SQL_KEYWORDS"

definition compute_scores :: "string \<Rightarrow> int \<times> int" where
  "compute_scores q =
     (let sql_score = sum_list (map (\<lambda>kw. 1) (filter (contains_keyword q) DEFINITE_SQL));
          semantic_score = sum_list (map (\<lambda>kw. 1) (filter (contains_keyword q) DEFINITE_SEMANTIC))
      in (sql_score, semantic_score))"

subsection \<open>Telemetry, the external model and the state of the process\<close>

text \<open>
  A line of \<^verbatim>\<open>classifier_log.txt\<close>: \<^verbatim>\<open>_log_decision\<close> writes the intent, the method, the
  two scores and the question, \<^verbatim>\<open>_log_ambiguous\<close> the two scores and the question.
  The fields are kept as passed; the layout of the line is left out.
\<close>

datatype log_record =
    Decision string string string int int
  | Ambiguous string int int

text \<open>
  What a call can raise: \<^verbatim>\<open>TypeError\<close> from \<^verbatim>\<open>lru_cache\<close> on an unhashable argument,
  \<^verbatim>\<open>IndexError\<close> from \<^verbatim>\<open>split()[0]\<close>, and whatever \<^verbatim>\<open>model.invoke\<close> raises.
\<close>

datatype error = TypeError | IndexError | InvokeError string

text \<open>
  The \<^verbatim>\<open>model\<close> argument is an object outside this repository. Of it the classifier
  uses: its identity and whether it can be hashed (\<^verbatim>\<open>lru_cache\<close> builds its key from
  both arguments), and \<^verbatim>\<open>invoke\<close>. The system message is the same text at every call,
  so \<open>invoke\<close> is given the content of the human message only; its first argument
  is the number of invocations made before, so that the answer may change from one
  call to the next. It returns the \<^verbatim>\<open>content\<close> of the result, or the exception raised.
\<close>

record model =
  model_id :: nat
  hashable :: bool
  invoke :: "nat \<Rightarrow> string \<Rightarrow> string + string"

text \<open>
  The state of the process: the log file, the lines printed, the table of
  \<^verbatim>\<open>lru_cache\<close> (most recently used entry first) and the calls of \<^verbatim>\<open>model.invoke\<close>
  made so far (the model and the human message).
\<close>

record state =
  log :: "log_record list"
  console :: "string list"
  cache :: "((string \<times> nat) \<times> string) list"
  calls :: "(nat \<times> string) list"

definition log_decision :: "string \<Rightarrow> string \<Rightarrow> string \<Rightarrow> int \<Rightarrow> int \<Rightarrow> state \<Rightarrow> state" where
  "log_decision question intent method sql_score sem_score st =
     st\<lparr>log := log st @ [Decision question intent method sql_score sem_score]\<rparr>"

definition log_ambiguous :: "string \<Rightarrow> int \<Rightarrow> int \<Rightarrow> state \<Rightarrow> state" where
  "log_ambiguous question sql_score sem_score st =
     st\<lparr>log := log st @ [Ambiguous question sql_score sem_score],
        console := console st @ [question]\<rparr>"

subsection \<open>LLM fallback\<close>

text \<open>
  The body of \<^verbatim>\<open>_llm_classify\<close>:
  \<^verbatim>\<open>result = model.invoke(messages); intent = result.content.strip().lower().split()[0];
  return "sql" if "sql" in intent else "semantic"\<close>
\<close>

definition llm_classify_body :: "string \<Rightarrow> model \<Rightarrow> state \<Rightarrow> (error + string) \<times> state" where
  "llm_classify_body question m st =
     (let message = ''Q: '' @ question;
          st' = st\<lparr>calls := calls st @ [(model_id m, message)]\<rparr>
      in case invoke m (length (calls st)) message of
           Inl e \<Rightarrow> (Inl (InvokeError e), st')
         | Inr content \<Rightarrow>
             (case str_split (str_lower (str_strip content)) of
                [] \<Rightarrow> (Inl IndexError, st')
              | intent # _ \<Rightarrow>
                  (Inr (if str_in ''sql'' intent then ''sql'' else ''semantic''), st')))"

text \<open>
  \<^verbatim>\<open>@lru_cache(maxsize=256)\<close>: the key is the pair of arguments. A hit returns the
  stored value and makes the entry the most recent one; a miss runs the body, and
  stores its value if it returns one (an exception is not stored), dropping the
  least recently used entry when the table is full.
\<close>

definition maxsize :: nat where
  "maxsize = 256"

definition llm_classify :: "string \<Rightarrow> model \<Rightarrow> state \<Rightarrow> (error + string) \<times> state" where
  "llm_classify question m st =
     (if \<not> hashable m then (Inl TypeError, st)
      else
        let key = (question, model_id m) in
        case map_of (cache st) key of
          Some v \<Rightarrow> (Inr v, st\<lparr>cache := (key, v) # filter (\<lambda>e. fst e \<noteq> key) (cache st)\<rparr>)
        | None \<Rightarrow>
            (case llm_classify_body question m st of
               (Inl e, st') \<Rightarrow> (Inl e, st')
             | (Inr v, st') \<Rightarrow> (Inr v, st'\<lparr>cache := take maxsize ((key, v) # cache st')\<rparr>)))"

subsection \<open>Main classifier\<close>

definition classify_intent :: "string \<Rightarrow> model option \<Rightarrow> state \<Rightarrow> (error + string) \<times> state" where
  "classify_intent question model st =
     (let q = str_strip (str_lower question) in
      if is_product_name_query q \<and> \<not> has_override_sql q
      then (Inr ''semantic'', log_decision question ''semantic'' ''product_name_pattern'' 0 0 st)
      else
        let (sql_score, semantic_score) = compute_scores q in
        if sql_score > 0 \<and> semantic_score = 0
        then (Inr ''sql'', log_decision question ''sql'' ''keyword_only'' sql_score semantic_score st)
        else if semantic_score > 0 \<and> sql_score = 0
        then (Inr ''semantic'',
              log_decision question ''semantic'' ''keyword_only'' sql_score semantic_score st)
        else if sql_score > semantic_score
        then (Inr ''sql'',
              log_decision question ''sql'' ''confidence_winner'' sql_score semantic_score st)
        else if semantic_score > sql_score
        then (Inr ''semantic'',
              log_decision question ''semantic'' ''confidence_winner'' sql_score semantic_score st)
        else
          let st1 = log_ambiguous question sql_score semantic_score st in
          case model of
            Some m \<Rightarrow>
              (case llm_classify question m st1 of
                 (Inl e, st2) \<Rightarrow> (Inl e, st2)
               | (Inr intent, st2) \<Rightarrow>
                   (Inr intent,
                    log_decision question intent ''llm_fallback'' sql_score semantic_score st2))
          | None \<Rightarrow>
              (Inr ''semantic'',
               log_decision question ''semantic'' ''default_fallback'' sql_score semantic_score st1))"

subsection \<open>Debug helper\<close>

record details =
  question :: string
  intent :: string
  sql_score :: int
  semantic_score :: int
  "method" :: string
  product_pattern :: bool
  sql_override :: bool

definition get_classification_details :: "string \<Rightarrow> details" where
  "get_classification_details qn =
     (let q = str_strip (str_lower qn);
          (sql, sem) = compute_scores q;
          has_product = is_product_name_query q;
          has_override = has_override_sql q;
          (i, m) =
            (if has_product \<and> \<not> has_override then (''semantic'', ''product_name_pattern'')
             else if sql > sem
             then (''sql'', if sem > 0 then ''confidence_winner'' else ''keyword_only'')
             else if sem > sql
             then (''semantic'', if sql > 0 then ''confidence_winner'' else ''keyword_only'')
             else (''ambiguous'', ''needs_llm_fallback''))
      in \<lparr>question = qn, intent = i, sql_score = sql, semantic_score = sem, method = m,
          product_pattern = has_product, sql_override = has_override\<rparr>)"

section \<open>Notions used to state the properties\<close>

text \<open>
  A question is ambiguous when \<open>classify_intent\<close> reaches its step 3: the product
  name short-circuit does not apply and neither score is greater than the other.
\<close>

definition is_ambiguous :: "string \<Rightarrow> bool" where
  "is_ambiguous qn =
     (let q = str_strip (str_lower qn)
      in \<not> (is_product_name_query q \<and> \<not> has_override_sql q) \<and>
         fst (compute_scores q) = snd (compute_scores q))"

text \<open>Every value stored in the table of \<^verbatim>\<open>lru_cache\<close> is one of the two labels.\<close>

definition cache_ok :: "state \<Rightarrow> bool" where
  "cache_ok st = list_all (\<lambda>e. snd e = ''sql'' \<or> snd e = ''semantic'') (cache st)"

text \<open>The state of a process that has classified nothing yet.\<close>

definition empty_state :: state where
  "empty_state = \<lparr>log = [], console = [], cache = [], calls = []\<rparr>"

text \<open>Two stand-ins for the external model: one answers a fixed text, one raises.\<close>

definition reply_model :: "string \<Rightarrow> model" where
  "reply_model content = \<lparr>model_id = 0, hashable = True, invoke = (\<lambda>n message. Inr content)\<rparr>"

definition raising_model :: "string \<Rightarrow> model" where
  "raising_model e = \<lparr>model_id = 0, hashable = True, invoke = (\<lambda>n message. Inl e)\<rparr>"

text \<open>The last character of a text, if any: what precedes the position after it.\<close>

definition last_char :: "string \<Rightarrow> char option" where
  "last_char s = (if s = [] then None else Some (last s))"

section \<open>Evaluating the classifier on concrete questions\<close>

text \<open>
  The classes of the characters that occur in the phrase lists and in the
  questions below, proved once from the definitions.
\<close>

lemma word_char_table:
  "is_word_char CHR ''a''" "is_word_char CHR ''b''" "is_word_char CHR ''c''" "is_word_char CHR ''d''"
  "is_word_char CHR ''e''" "is_word_char CHR ''f''" "is_word_char CHR ''g''" "is_word_char CHR ''h''"
  "is_word_char CHR ''i''" "is_word_char CHR ''j''" "is_word_char CHR ''k''" "is_word_char CHR ''l''"
  "is_word_char CHR ''m''" "is_word_char CHR ''n''" "is_word_char CHR ''o''" "is_word_char CHR ''p''"
  "is_word_char CHR ''q''" "is_word_char CHR ''r''" "is_word_char CHR ''s''" "is_word_char CHR ''t''"
  "is_word_char CHR ''u''" "is_word_char CHR ''v''" "is_word_char CHR ''w''" "is_word_char CHR ''x''"
  "is_word_char CHR ''y''" "is_word_char CHR ''z''" "is_word_char CHR ''0''" "is_word_char CHR ''1''"
  "is_word_char CHR ''2''" "is_word_char CHR ''3''" "is_word_char CHR ''4''" "is_word_char CHR ''5''"
  "is_word_char CHR ''6''" "is_word_char CHR ''7''" "is_word_char CHR ''8''" "is_word_char CHR ''9''"
  "\<not> is_word_char CHR '' ''"
  by (simp_all add: is_word_char_def isalnum_def in_range_def code_point_def)

lemma isspace_table:
  "\<not> isspace CHR ''a''" "\<not> isspace CHR ''b''" "\<not> isspace CHR ''c''" "\<not> isspace CHR ''d''"
  "\<not> isspace CHR ''e''" "\<not> isspace CHR ''f''" "\<not> isspace CHR ''g''" "\<not> isspace CHR ''h''"
  "\<not> isspace CHR ''i''" "\<not> isspace CHR ''j''" "\<not> isspace CHR ''k''" "\<not> isspace CHR ''l''"
  "\<not> isspace CHR ''m''" "\<not> isspace CHR ''n''" "\<not> isspace CHR ''o''" "\<not> isspace CHR ''p''"
  "\<not> isspace CHR ''q''" "\<not> isspace CHR ''r''" "\<not> isspace CHR ''s''" "\<not> isspace CHR ''t''"
  "\<not> isspace CHR ''u''" "\<not> isspace CHR ''v''" "\<not> isspace CHR ''w''" "\<not> isspace CHR ''x''"
  "\<not> isspace CHR ''y''" "\<not> isspace CHR ''z''" "\<not> isspace CHR ''0''" "\<not> isspace CHR ''1''"
  "\<not> isspace CHR ''2''" "\<not> isspace CHR ''3''" "\<not> isspace CHR ''4''" "\<not> isspace CHR ''5''"
  "\<not> isspace CHR ''6''" "\<not> isspace CHR ''7''" "\<not> isspace CHR ''8''" "\<not> isspace CHR ''9''"
  "isspace CHR '' ''"
  by (simp_all add: isspace_def in_range_def code_point_def)

lemma is_digit_table:
  "\<not> is_digit CHR ''a''" "\<not> is_digit CHR ''b''" "\<not> is_digit CHR ''c''" "\<not> is_digit CHR ''d''"
  "\<not> is_digit CHR ''e''" "\<not> is_digit CHR ''f''" "\<not> is_digit CHR ''g''" "\<not> is_digit CHR ''h''"
  "\<not> is_digit CHR ''i''" "\<not> is_digit CHR ''j''" "\<not> is_digit CHR ''k''" "\<not> is_digit CHR ''l''"
  "\<not> is_digit CHR ''m''" "\<not> is_digit CHR ''n''" "\<not> is_digit CHR ''o''" "\<not> is_digit CHR ''p''"
  "\<not> is_digit CHR ''q''" "\<not> is_digit CHR ''r''" "\<not> is_digit CHR ''s''" "\<not> is_digit CHR ''t''"
  "\<not> is_digit CHR ''u''" "\<not> is_digit CHR ''v''" "\<not> is_digit CHR ''w''" "\<not> is_digit CHR ''x''"
  "\<not> is_digit CHR ''y''" "\<not> is_digit CHR ''z''" "is_digit CHR ''0''" "is_digit CHR ''1''"
  "is_digit CHR ''2''" "is_digit CHR ''3''" "is_digit CHR ''4''" "is_digit CHR ''5''"
  "is_digit CHR ''6''" "is_digit CHR ''7''" "is_digit CHR ''8''" "is_digit CHR ''9''"
  "\<not> is_digit CHR '' ''"
  by (simp_all add: is_digit_def in_range_def code_point_def)

lemma is_ascii_letter_table:
  "is_ascii_letter CHR ''a''" "is_ascii_letter CHR ''b''" "is_ascii_letter CHR ''c''" "is_ascii_letter CHR ''d''"
  "is_ascii_letter CHR ''e''" "is_ascii_letter CHR ''f''" "is_ascii_letter CHR ''g''" "is_ascii_letter CHR ''h''"
  "is_ascii_letter CHR ''i''" "is_ascii_letter CHR ''j''" "is_ascii_letter CHR ''k''" "is_ascii_letter CHR ''l''"
  "is_ascii_letter CHR ''m''" "is_ascii_letter CHR ''n''" "is_ascii_letter CHR ''o''" "is_ascii_letter CHR ''p''"
  "is_ascii_letter CHR ''q''" "is_ascii_letter CHR ''r''" "is_ascii_letter CHR ''s''" "is_ascii_letter CHR ''t''"
  "is_ascii_letter CHR ''u''" "is_ascii_letter CHR ''v''" "is_ascii_letter CHR ''w''" "is_ascii_letter CHR ''x''"
  "is_ascii_letter CHR ''y''" "is_ascii_letter CHR ''z''" "\<not> is_ascii_letter CHR ''0''" "\<not> is_ascii_letter CHR ''1''"
  "\<not> is_ascii_letter CHR ''2''" "\<not> is_ascii_letter CHR ''3''" "\<not> is_ascii_letter CHR ''4''" "\<not> is_ascii_letter CHR ''5''"
  "\<not> is_ascii_letter CHR ''6''" "\<not> is_ascii_letter CHR ''7''" "\<not> is_ascii_letter CHR ''8''" "\<not> is_ascii_letter CHR ''9''"
  "\<not> is_ascii_letter CHR '' ''"
  by (simp_all add: is_ascii_letter_def in_range_def code_point_def)

lemma lower_char_table:
  "lower_char CHR ''a'' = CHR ''a''" "lower_char CHR ''b'' = CHR ''b''" "lower_char CHR ''c'' = CHR ''c''"
  "lower_char CHR ''d'' = CHR ''d''" "lower_char CHR ''e'' = CHR ''e''" "lower_char CHR ''f'' = CHR ''f''"
  "lower_char CHR ''g'' = CHR ''g''" "lower_char CHR ''h'' = CHR ''h''" "lower_char CHR ''i'' = CHR ''i''"
  "lower_char CHR ''j'' = CHR ''j''" "lower_char CHR ''k'' = CHR ''k''" "lower_char CHR ''l'' = CHR ''l''"
  "lower_char CHR ''m'' = CHR ''m''" "lower_char CHR ''n'' = CHR ''n''" "lower_char CHR ''o'' = CHR ''o''"
  "lower_char CHR ''p'' = CHR ''p''" "lower_char CHR ''q'' = CHR ''q''" "lower_char CHR ''r'' = CHR ''r''"
  "lower_char CHR ''s'' = CHR ''s''" "lower_char CHR ''t'' = CHR ''t''" "lower_char CHR ''u'' = CHR ''u''"
  "lower_char CHR ''v'' = CHR ''v''" "lower_char CHR ''w'' = CHR ''w''" "lower_char CHR ''x'' = CHR ''x''"
  "lower_char CHR ''y'' = CHR ''y''" "lower_char CHR ''z'' = CHR ''z''" "lower_char CHR ''0'' = CHR ''0''"
  "lower_char CHR ''1'' = CHR ''1''" "lower_char CHR ''2'' = CHR ''2''" "lower_char CHR ''3'' = CHR ''3''"
  "lower_char CHR ''4'' = CHR ''4''" "lower_char CHR ''5'' = CHR ''5''" "lower_char CHR ''6'' = CHR ''6''"
  "lower_char CHR ''7'' = CHR ''7''" "lower_char CHR ''8'' = CHR ''8''" "lower_char CHR ''9'' = CHR ''9''"
  "lower_char CHR '' '' = CHR '' ''"
  by (simp_all add: lower_char_def in_range_def code_point_def)

lemmas char_tables =
  word_char_table isspace_table is_digit_table is_ascii_letter_table lower_char_table

lemmas kw_eval =
  contains_keyword_def re_search_def word_boundary_def first_char_def char_eq_def char_tables

lemmas norm_eval = str_strip_def str_lower_def char_tables

subsection \<open>The question \<^verbatim>\<open>popular color options\<close>\<close>

lemma norm_popular: "str_strip (str_lower ''popular color options'') = ''popular color options''"
  by (simp add: norm_eval)

lemma scores_popular: "compute_scores ''popular color options'' = (1, 0)"
  by (simp add: compute_scores_def DEFINITE_SQL_def DEFINITE_SEMANTIC_def kw_eval)

lemma pattern_popular: "\<not> is_product_name_query ''popular color options''"
  by (simp add: is_product_name_query_def PRODUCT_NAME_PATTERNS_def kw_eval)

lemma popular_matches: "contains_keyword ''popular color options'' ''popular''"
  by (simp add: kw_eval)

text \<open>
  Claim C8. For the question \<^verbatim>\<open>popular color options\<close> the pattern detector does not
  fire, the phrase \<^verbatim>\<open>popular\<close> matches, the scores are 1 (structured) and 0
  (semantic), and \<open>classify_intent\<close> returns \<^verbatim>\<open>sql\<close> and logs the method
  \<^verbatim>\<open>keyword_only\<close>, whatever the model and the state.
\<close>

theorem popular_color_options_keyword_only:
  "\<not> is_product_name_query (str_strip (str_lower ''popular color options'')) \<and>
   contains_keyword (str_strip (str_lower ''popular color options'')) ''popular'' \<and>
   compute_scores (str_strip (str_lower ''popular color options'')) = (1, 0) \<and>
   classify_intent ''popular color options'' model st =
     (Inr ''sql'', log_decision ''popular color options'' ''sql'' ''keyword_only'' 1 0 st)"
  by (simp add: classify_intent_def norm_popular scores_popular pattern_popular popular_matches)

subsection \<open>The questions \<^verbatim>\<open>how many adidas models\<close> and \<^verbatim>\<open>how many adidas model\<close>\<close>

lemma norm_models: "str_strip (str_lower ''how many adidas models'') = ''how many adidas models''"
  by (simp add: norm_eval)

lemma scores_models: "compute_scores ''how many adidas models'' = (1, 0)"
  by (simp add: compute_scores_def DEFINITE_SQL_def DEFINITE_SEMANTIC_def kw_eval)

lemma pattern_models: "\<not> is_product_name_query ''how many adidas models''"
  by (simp add: is_product_name_query_def PRODUCT_NAME_PATTERNS_def kw_eval)

lemma override_models: "has_override_sql ''how many adidas models''"
  by (simp add: has_override_sql_def OVERRIDE_SQL_KEYWORDS_def kw_eval)

lemma norm_model: "str_strip (str_lower ''how many adidas model'') = ''how many adidas model''"
  by (simp add: norm_eval)

lemma scores_model: "compute_scores ''how many adidas model'' = (1, 0)"
  by (simp add: compute_scores_def DEFINITE_SQL_def DEFINITE_SEMANTIC_def kw_eval)

lemma pattern_model: "is_product_name_query ''how many adidas model''"
  by (simp add: is_product_name_query_def PRODUCT_NAME_PATTERNS_def kw_eval)

lemma override_model: "has_override_sql ''how many adidas model''"
  by (simp add: has_override_sql_def OVERRIDE_SQL_KEYWORDS_def kw_eval)

text \<open>
  Claim C7, as stated, fails: in \<^verbatim>\<open>how many adidas models\<close> the pattern detector
  does not fire. The word \<^verbatim>\<open>model\<close> is followed by the letter \<^verbatim>\<open>s\<close>, so there is
  no word boundary after it, and no word is followed by a number.
\<close>

theorem how_many_adidas_models_pattern_not_detected:
  "\<not> is_product_name_query (str_strip (str_lower ''how many adidas models''))"
  by (simp add: norm_models pattern_models)

text \<open>
  Claim C7, amended. For \<^verbatim>\<open>how many adidas models\<close> the pattern detector does not
  fire, the override phrase \<^verbatim>\<open>how many\<close> matches, and \<open>classify_intent\<close> returns
  \<^verbatim>\<open>sql\<close> with the method \<^verbatim>\<open>keyword_only\<close> and the scores 1 and 0. For the singular
  \<^verbatim>\<open>how many adidas model\<close> the pattern detector fires, the override phrase
  suppresses the short-circuit, and the result is the same.
\<close>

theorem how_many_adidas_models_keyword_only:
  "\<not> is_product_name_query (str_strip (str_lower ''how many adidas models'')) \<and>
   has_override_sql (str_strip (str_lower ''how many adidas models'')) \<and>
   classify_intent ''how many adidas models'' model st =
     (Inr ''sql'', log_decision ''how many adidas models'' ''sql'' ''keyword_only'' 1 0 st) \<and>
   is_product_name_query (str_strip (str_lower ''how many adidas model'')) \<and>
   has_override_sql (str_strip (str_lower ''how many adidas model'')) \<and>
   classify_intent ''how many adidas model'' model st =
     (Inr ''sql'', log_decision ''how many adidas model'' ''sql'' ''keyword_only'' 1 0 st)"
  by (simp add: classify_intent_def norm_models scores_models pattern_models override_models
      norm_model scores_model pattern_model override_model)

subsection \<open>The empty question and the question \<^verbatim>\<open>xyz\<close>\<close>

lemma norm_empty: "str_strip (str_lower []) = []"
  by (simp add: norm_eval)

lemma scores_empty: "compute_scores [] = (0, 0)"
  by (simp add: compute_scores_def DEFINITE_SQL_def DEFINITE_SEMANTIC_def kw_eval)

lemma pattern_empty: "\<not> is_product_name_query []"
  by (simp add: is_product_name_query_def PRODUCT_NAME_PATTERNS_def kw_eval)

lemma ambiguous_empty: "is_ambiguous []"
  by (simp add: is_ambiguous_def norm_empty scores_empty pattern_empty)

lemma norm_xyz: "str_strip (str_lower ''xyz'') = ''xyz''"
  by (simp add: norm_eval)

lemma lower_char_upper_table:
  "lower_char CHR ''X'' = CHR ''x''" "lower_char CHR ''Y'' = CHR ''y''"
  "lower_char CHR ''Z'' = CHR ''z''"
  by code_simp+

lemma norm_XYZ: "str_strip (str_lower ''XYZ'') = ''xyz''"
  by (simp add: norm_eval lower_char_upper_table)

lemma scores_xyz: "compute_scores ''xyz'' = (0, 0)"
  by (simp add: compute_scores_def DEFINITE_SQL_def DEFINITE_SEMANTIC_def kw_eval)

lemma pattern_xyz: "\<not> is_product_name_query ''xyz''"
  by (simp add: is_product_name_query_def PRODUCT_NAME_PATTERNS_def kw_eval)

lemma ambiguous_xyz: "is_ambiguous ''xyz''"
  by (simp add: is_ambiguous_def norm_xyz scores_xyz pattern_xyz)

lemma ambiguous_XYZ: "is_ambiguous ''XYZ''"
  by (simp add: is_ambiguous_def norm_XYZ scores_xyz pattern_xyz)

lemma split_blank: "str_split (str_lower (str_strip ''  '')) = []"
  by (simp add: str_split_def norm_eval)

lemma split_none: "str_split (str_lower (str_strip [])) = []"
  by (simp add: str_split_def norm_eval)

lemma split_semantic: "str_split (str_lower (str_strip ''semantic'')) = [''semantic'']"
  by (simp add: str_split_def norm_eval)

lemma cache_ok_empty: "cache_ok empty_state"
  by (simp add: cache_ok_def empty_state_def)

section \<open>The decision procedure\<close>

text \<open>
  The scores are counts, so they are never negative, and \<open>classify_intent\<close> has
  three kinds of run: the product name short-circuit, a winner between two
  different scores, and the ambiguous rule.
\<close>

lemma sum_ones: "sum_list (map (\<lambda>kw. 1::int) xs) = int (length xs)"
  by (induction xs) simp_all

lemma scores_nonneg: "0 \<le> fst (compute_scores q) \<and> 0 \<le> snd (compute_scores q)"
  by (simp add: compute_scores_def sum_ones)

lemma classify_short_circuit:
  assumes "is_product_name_query (str_strip (str_lower qn))"
    and "\<not> has_override_sql (str_strip (str_lower qn))"
  shows "classify_intent qn mo st =
           (Inr ''semantic'', log_decision qn ''semantic'' ''product_name_pattern'' 0 0 st)"
  using assms by (simp add: classify_intent_def)

lemma classify_winner:
  assumes "\<not> (is_product_name_query (str_strip (str_lower qn)) \<and>
               \<not> has_override_sql (str_strip (str_lower qn)))"
    and "compute_scores (str_strip (str_lower qn)) = (s, m)" and "s \<noteq> m"
  shows "classify_intent qn mo st =
           (Inr (if m < s then ''sql'' else ''semantic''),
            log_decision qn (if m < s then ''sql'' else ''semantic'')
              (if s = 0 \<or> m = 0 then ''keyword_only'' else ''confidence_winner'') s m st)"
proof -
  have "0 \<le> s" "0 \<le> m"
    using scores_nonneg [of "str_strip (str_lower qn)"] assms(2) by simp_all
  with assms show ?thesis
    by (auto simp: classify_intent_def)
qed

lemma classify_no_model:
  assumes "is_ambiguous qn"
  shows "classify_intent qn None st =
           (Inr ''semantic'',
            log_decision qn ''semantic'' ''default_fallback''
              (fst (compute_scores (str_strip (str_lower qn))))
              (fst (compute_scores (str_strip (str_lower qn))))
              (log_ambiguous qn (fst (compute_scores (str_strip (str_lower qn))))
                 (fst (compute_scores (str_strip (str_lower qn)))) st))"
  using assms
  by (cases "compute_scores (str_strip (str_lower qn))")
     (auto simp: classify_intent_def is_ambiguous_def Let_def)

lemma classify_with_model:
  assumes "is_ambiguous qn"
  shows "classify_intent qn (Some m) st =
           (let s = fst (compute_scores (str_strip (str_lower qn)))
            in case llm_classify qn m (log_ambiguous qn s s st) of
                 (Inl e, st2) \<Rightarrow> (Inl e, st2)
               | (Inr i, st2) \<Rightarrow> (Inr i, log_decision qn i ''llm_fallback'' s s st2))"
  using assms
  by (cases "compute_scores (str_strip (str_lower qn))")
     (auto simp: classify_intent_def is_ambiguous_def Let_def)

lemma classify_not_ambiguous:
  assumes "\<not> is_ambiguous qn"
  obtains l meth s m where "l = ''sql'' \<or> l = ''semantic''"
    and "\<And>mo st. classify_intent qn mo st = (Inr l, log_decision qn l meth s m st)"
proof (cases "is_product_name_query (str_strip (str_lower qn)) \<and>
              \<not> has_override_sql (str_strip (str_lower qn))")
  case True
  then have "\<And>mo st. classify_intent qn mo st =
      (Inr ''semantic'', log_decision qn ''semantic'' ''product_name_pattern'' 0 0 st)"
    by (simp add: classify_short_circuit)
  then show ?thesis
    using that [of "''semantic''" "''product_name_pattern''" 0 0] by simp
next
  case False
  obtain s m where sm: "compute_scores (str_strip (str_lower qn)) = (s, m)"
    by (cases "compute_scores (str_strip (str_lower qn))")
  with False assms have ne: "s \<noteq> m"
    by (auto simp: is_ambiguous_def Let_def)
  let ?l = "if m < s then ''sql'' else ''semantic''"
  let ?meth = "if s = 0 \<or> m = 0 then ''keyword_only'' else ''confidence_winner''"
  have "\<And>mo st. classify_intent qn mo st = (Inr ?l, log_decision qn ?l ?meth s m st)"
    by (rule classify_winner [OF False sm ne])
  moreover have "?l = ''sql'' \<or> ?l = ''semantic''"
    by simp
  ultimately show ?thesis
    using that [of ?l ?meth s m] by blast
qed

text \<open>
  Claim C10. Whenever \<open>get_classification_details\<close> reports an intent other than
  \<^verbatim>\<open>ambiguous\<close>, \<open>classify_intent\<close> with no model returns that intent as its label
  and writes one decision record whose method is the method field of the details.
\<close>

theorem details_agree_with_classify_intent:
  assumes "intent (get_classification_details qn) \<noteq> ''ambiguous''"
  shows "\<exists>s m. classify_intent qn None st =
           (Inr (intent (get_classification_details qn)),
            log_decision qn (intent (get_classification_details qn))
              (method (get_classification_details qn)) s m st)"
proof (cases "is_product_name_query (str_strip (str_lower qn)) \<and>
              \<not> has_override_sql (str_strip (str_lower qn))")
  case True
  then have "intent (get_classification_details qn) = ''semantic''"
    "method (get_classification_details qn) = ''product_name_pattern''"
    by (auto simp: get_classification_details_def Let_def split: prod.splits)
  with True show ?thesis
    using classify_short_circuit [of qn None st] by auto
next
  case False
  obtain s m where sm: "compute_scores (str_strip (str_lower qn)) = (s, m)"
    by (cases "compute_scores (str_strip (str_lower qn))")
  have nn: "0 \<le> s" "0 \<le> m"
    using scores_nonneg [of "str_strip (str_lower qn)"] sm by simp_all
  from assms False sm have ne: "s \<noteq> m"
    by (auto simp: get_classification_details_def Let_def split: if_splits)
  from False sm ne nn have
    "intent (get_classification_details qn) = (if m < s then ''sql'' else ''semantic'')"
    "method (get_classification_details qn) =
       (if s = 0 \<or> m = 0 then ''keyword_only'' else ''confidence_winner'')"
    by (auto simp: get_classification_details_def Let_def)
  with classify_winner [OF False sm ne, of None st] show ?thesis
    by auto
qed

theorem details_agree_with_classify_intent_witness:
  "intent (get_classification_details ''popular color options'') \<noteq> ''ambiguous'' \<and>
   (\<exists>s m. classify_intent ''popular color options'' None empty_state =
      (Inr (intent (get_classification_details ''popular color options'')),
       log_decision ''popular color options''
         (intent (get_classification_details ''popular color options''))
         (method (get_classification_details ''popular color options'')) s m empty_state))"
proof -
  have h: "intent (get_classification_details ''popular color options'') \<noteq> ''ambiguous''"
    by (simp add: get_classification_details_def Let_def norm_popular scores_popular
        pattern_popular)
  from details_agree_with_classify_intent [OF h, of empty_state] h show ?thesis
    by blast
qed

section \<open>The escalation hook\<close>

lemma log_decision_fields [simp]:
  "cache (log_decision qn i meth s m st) = cache st"
  "calls (log_decision qn i meth s m st) = calls st"
  "console (log_decision qn i meth s m st) = console st"
  "log (log_decision qn i meth s m st) = log st @ [Decision qn i meth s m]"
  by (simp_all add: log_decision_def)

lemma log_ambiguous_fields [simp]:
  "cache (log_ambiguous qn s m st) = cache st"
  "calls (log_ambiguous qn s m st) = calls st"
  "console (log_ambiguous qn s m st) = console st @ [qn]"
  "log (log_ambiguous qn s m st) = log st @ [Ambiguous qn s m]"
  by (simp_all add: log_ambiguous_def)

lemma body_state:
  "snd (llm_classify_body qn m st) = st\<lparr>calls := calls st @ [(model_id m, ''Q: '' @ qn)]\<rparr>"
  by (simp add: llm_classify_body_def Let_def split: sum.splits list.splits)

lemma body_label:
  assumes "fst (llm_classify_body qn m st) = Inr v"
  shows "v = ''sql'' \<or> v = ''semantic''"
  using assms
  by (auto simp: llm_classify_body_def Let_def split: sum.splits list.splits if_splits)

lemma body_raises:
  assumes "invoke m (length (calls st)) (''Q: '' @ qn) = Inl e"
  shows "fst (llm_classify_body qn m st) = Inl (InvokeError e)"
  using assms by (simp add: llm_classify_body_def Let_def)

lemma llm_hit:
  assumes "hashable m" and "map_of (cache st) (qn, model_id m) = Some v"
  shows "llm_classify qn m st =
           (Inr v, st\<lparr>cache := ((qn, model_id m), v) #
                              filter (\<lambda>e. fst e \<noteq> (qn, model_id m)) (cache st)\<rparr>)"
  using assms by (simp add: llm_classify_def Let_def)

lemma llm_miss:
  assumes "hashable m" and "map_of (cache st) (qn, model_id m) = None"
  shows "llm_classify qn m st =
           (case fst (llm_classify_body qn m st) of
              Inl e \<Rightarrow> (Inl e, st\<lparr>calls := calls st @ [(model_id m, ''Q: '' @ qn)]\<rparr>)
            | Inr v \<Rightarrow>
                (Inr v, st\<lparr>calls := calls st @ [(model_id m, ''Q: '' @ qn)],
                           cache := take maxsize (((qn, model_id m), v) # cache st)\<rparr>))"
proof -
  obtain r st' where b: "llm_classify_body qn m st = (r, st')"
    by (cases "llm_classify_body qn m st")
  with body_state [of qn m st]
  have "st' = st\<lparr>calls := calls st @ [(model_id m, ''Q: '' @ qn)]\<rparr>" by simp
  with assms b show ?thesis
    by (simp add: llm_classify_def Let_def split: sum.splits)
qed

lemma llm_unhashable: "\<not> hashable m \<Longrightarrow> llm_classify qn m st = (Inl TypeError, st)"
  by (simp add: llm_classify_def)

lemma take_maxsize_Cons: "take maxsize (x # xs) = x # take 255 xs"
  by (simp add: maxsize_def take_Cons')

lemma llm_returns:
  assumes "llm_classify qn m st = (Inr v, st')"
  shows "hashable m \<and> map_of (cache st') (qn, model_id m) = Some v \<and>
         log st' = log st \<and> console st' = console st \<and>
         (calls st' = calls st \<or> calls st' = calls st @ [(model_id m, ''Q: '' @ qn)])"
proof (cases "hashable m")
  case False
  with assms show ?thesis by (simp add: llm_unhashable)
next
  case True
  show ?thesis
  proof (cases "map_of (cache st) (qn, model_id m)")
    case (Some w)
    with True assms show ?thesis by (auto simp: llm_hit)
  next
    case None
    with True assms show ?thesis
      by (auto simp: llm_miss take_maxsize_Cons split: sum.splits)
  qed
qed

lemma llm_label:
  assumes "cache_ok st" and "llm_classify qn m st = (Inr v, st')"
  shows "(v = ''sql'' \<or> v = ''semantic'') \<and> cache_ok st'"
proof (cases "hashable m")
  case False
  with assms show ?thesis by (simp add: llm_unhashable)
next
  case True
  show ?thesis
  proof (cases "map_of (cache st) (qn, model_id m)")
    case (Some w)
    then have "((qn, model_id m), w) \<in> set (cache st)"
      by (rule map_of_SomeD)
    with assms(1) have "w = ''sql'' \<or> w = ''semantic''"
      by (auto simp: cache_ok_def list_all_iff)
    with True Some assms show ?thesis
      by (auto simp: llm_hit cache_ok_def list_all_iff)
  next
    case None
    with True assms(2) have v: "fst (llm_classify_body qn m st) = Inr v"
      and st': "cache st' = take maxsize (((qn, model_id m), v) # cache st)"
      by (auto simp: llm_miss split: sum.splits)
    from v have "v = ''sql'' \<or> v = ''semantic''" by (rule body_label)
    moreover from this assms(1) st' have "cache_ok st'"
      by (auto simp: cache_ok_def list_all_iff take_maxsize_Cons dest: in_set_takeD)
    ultimately show ?thesis by simp
  qed
qed

lemma raising_model_fields [simp]:
  "model_id (raising_model e) = 0" "hashable (raising_model e)"
  "invoke (raising_model e) n message = Inl e"
  by (simp_all add: raising_model_def)

lemma reply_model_fields [simp]:
  "model_id (reply_model content) = 0" "hashable (reply_model content)"
  "invoke (reply_model content) n message = Inr content"
  by (simp_all add: reply_model_def)

lemma body_semantic:
  "fst (llm_classify_body qn (reply_model ''semantic'') st) = Inr ''semantic''"
  by (simp add: llm_classify_body_def split_semantic)

text \<open>
  Claim C1, as stated, fails: with a model whose \<^verbatim>\<open>invoke\<close> raises, the empty question
  reaches the ambiguous rule and \<open>classify_intent\<close> raises that exception instead of
  returning a label.
\<close>

theorem classify_intent_raises_when_model_raises:
  "classify_intent [] (Some (raising_model ''timeout'')) empty_state =
     (Inl (InvokeError ''timeout''),
      \<lparr>log = [Ambiguous [] 0 0], console = [[]], cache = [], calls = [(0, ''Q: '')]\<rparr>)"
  by (simp add: classify_with_model [OF ambiguous_empty] Let_def norm_empty scores_empty llm_miss
      body_raises empty_state_def log_ambiguous_def)

text \<open>
  Claim C1, amended. Without a model, \<open>classify_intent\<close> returns \<^verbatim>\<open>sql\<close> or
  \<^verbatim>\<open>semantic\<close> for every question and never raises. With a model, and a cache that
  holds labels only, it either returns one of the two labels, or the question is
  ambiguous and the call raises what the escalation hook raised. The empty question
  is ambiguous, both its scores are zero, and without a model it yields \<^verbatim>\<open>semantic\<close>
  by \<^verbatim>\<open>default_fallback\<close>.
\<close>

theorem classify_intent_label_or_hook_error:
  "(\<exists>l st'. classify_intent qn None st = (Inr l, st') \<and> (l = ''sql'' \<or> l = ''semantic'')) \<and>
   (cache_ok st \<longrightarrow>
      (\<exists>l st'. classify_intent qn (Some m) st = (Inr l, st') \<and>
                (l = ''sql'' \<or> l = ''semantic'') \<and> cache_ok st') \<or>
      (\<exists>e s st'. is_ambiguous qn \<and>
                llm_classify qn m (log_ambiguous qn s s st) = (Inl e, st') \<and>
                classify_intent qn (Some m) st = (Inl e, st'))) \<and>
   is_ambiguous [] \<and> compute_scores (str_strip (str_lower [])) = (0, 0) \<and>
   classify_intent [] None st =
     (Inr ''semantic'',
      log_decision [] ''semantic'' ''default_fallback'' 0 0 (log_ambiguous [] 0 0 st))"
proof (intro conjI impI)
  show "\<exists>l st'. classify_intent qn None st = (Inr l, st') \<and> (l = ''sql'' \<or> l = ''semantic'')"
  proof (cases "is_ambiguous qn")
    case True
    then show ?thesis by (simp add: classify_no_model)
  next
    case False
    then show ?thesis by (rule classify_not_ambiguous) simp
  qed
next
  assume ok: "cache_ok st"
  show "(\<exists>l st'. classify_intent qn (Some m) st = (Inr l, st') \<and>
                (l = ''sql'' \<or> l = ''semantic'') \<and> cache_ok st') \<or>
        (\<exists>e s st'. is_ambiguous qn \<and>
                llm_classify qn m (log_ambiguous qn s s st) = (Inl e, st') \<and>
                classify_intent qn (Some m) st = (Inl e, st'))"
  proof (cases "is_ambiguous qn")
    case False
    then obtain l meth s k where l: "l = ''sql'' \<or> l = ''semantic''"
      and c: "\<And>mo st. classify_intent qn mo st = (Inr l, log_decision qn l meth s k st)"
      by (rule classify_not_ambiguous) blast
    from ok have "cache_ok (log_decision qn l meth s k st)"
      by (simp add: cache_ok_def)
    with l c show ?thesis by auto
  next
    case True
    let ?s = "fst (compute_scores (str_strip (str_lower qn)))"
    let ?st1 = "log_ambiguous qn ?s ?s st"
    from ok have ok1: "cache_ok ?st1" by (simp add: cache_ok_def)
    obtain r st2 where h: "llm_classify qn m ?st1 = (r, st2)"
      by (cases "llm_classify qn m ?st1")
    show ?thesis
    proof (cases r)
      case (Inl e)
      with h True have "classify_intent qn (Some m) st = (Inl e, st2)"
        by (simp add: classify_with_model Let_def)
      with h Inl True show ?thesis by blast
    next
      case (Inr v)
      with h llm_label [OF ok1] have v: "v = ''sql'' \<or> v = ''semantic''" and "cache_ok st2"
        by simp_all
      then have "cache_ok (log_decision qn v ''llm_fallback'' ?s ?s st2)"
        by (simp add: cache_ok_def)
      moreover from h Inr True have "classify_intent qn (Some m) st =
          (Inr v, log_decision qn v ''llm_fallback'' ?s ?s st2)"
        by (simp add: classify_with_model Let_def)
      ultimately show ?thesis using v by blast
    qed
  qed
next
  show "is_ambiguous []" by (rule ambiguous_empty)
next
  show "compute_scores (str_strip (str_lower [])) = (0, 0)"
    by (simp add: norm_empty scores_empty)
next
  show "classify_intent [] None st =
     (Inr ''semantic'',
      log_decision [] ''semantic'' ''default_fallback'' 0 0 (log_ambiguous [] 0 0 st))"
    by (simp add: classify_no_model [OF ambiguous_empty] norm_empty scores_empty)
qed

theorem classify_intent_label_or_hook_error_witness:
  "cache_ok empty_state \<and>
   ((\<exists>l st'. classify_intent ''xyz'' (Some (reply_model ''semantic'')) empty_state = (Inr l, st') \<and>
              (l = ''sql'' \<or> l = ''semantic'') \<and> cache_ok st') \<or>
    (\<exists>e s st'. is_ambiguous ''xyz'' \<and>
              llm_classify ''xyz'' (reply_model ''semantic'')
                (log_ambiguous ''xyz'' s s empty_state) = (Inl e, st') \<and>
              classify_intent ''xyz'' (Some (reply_model ''semantic'')) empty_state = (Inl e, st')))"
  using classify_intent_label_or_hook_error
    [of "''xyz''" empty_state "reply_model ''semantic''"] cache_ok_empty
  by blast

text \<open>
  Claim C2, as stated, fails: when \<^verbatim>\<open>model.invoke\<close> raises on the ambiguous question
  \<^verbatim>\<open>xyz\<close>, \<open>classify_intent\<close> raises the same exception, whereas without a model it
  returns \<^verbatim>\<open>semantic\<close>.
\<close>

theorem collaborator_failure_not_caught:
  "fst (classify_intent ''xyz'' (Some (raising_model ''timeout'')) empty_state) =
     Inl (InvokeError ''timeout'') \<and>
   fst (classify_intent ''xyz'' None empty_state) = Inr ''semantic''"
  by (simp add: classify_with_model [OF ambiguous_xyz] classify_no_model [OF ambiguous_xyz]
      Let_def norm_xyz scores_xyz llm_miss body_raises empty_state_def)

text \<open>
  Claim C2, amended. If the question is ambiguous, its key is not in the cache and
  \<^verbatim>\<open>model.invoke\<close> raises, then \<open>classify_intent\<close> does not catch the exception: it
  reaches the caller, after the ambiguous record has been written and the call has
  been made; no decision record is written and nothing is cached.
\<close>

theorem collaborator_exception_propagates:
  assumes "is_ambiguous qn" and "hashable m"
    and "map_of (cache st) (qn, model_id m) = None"
    and "invoke m (length (calls st)) (''Q: '' @ qn) = Inl e"
  shows "classify_intent qn (Some m) st =
           (Inl (InvokeError e),
            (log_ambiguous qn (fst (compute_scores (str_strip (str_lower qn))))
               (fst (compute_scores (str_strip (str_lower qn)))) st)
            \<lparr>calls := calls st @ [(model_id m, ''Q: '' @ qn)]\<rparr>)"
  using assms
  by (simp add: classify_with_model Let_def llm_miss body_raises)

theorem collaborator_exception_propagates_witness:
  "is_ambiguous ''xyz'' \<and> hashable (raising_model ''timeout'') \<and>
   map_of (cache empty_state) (''xyz'', model_id (raising_model ''timeout'')) = None \<and>
   invoke (raising_model ''timeout'') (length (calls empty_state)) (''Q: '' @ ''xyz'') =
     Inl ''timeout'' \<and>
   classify_intent ''xyz'' (Some (raising_model ''timeout'')) empty_state =
     (Inl (InvokeError ''timeout''),
      \<lparr>log = [Ambiguous ''xyz'' 0 0], console = [''xyz''], cache = [],
       calls = [(0, ''Q: xyz'')]\<rparr>)"
  using collaborator_exception_propagates
    [of "''xyz''" "raising_model ''timeout''" empty_state "''timeout''"] ambiguous_xyz
  by (simp add: empty_state_def norm_xyz scores_xyz log_ambiguous_def)

text \<open>
  Claim C3 on the code: when the model answers an empty text or white space only,
  \<^verbatim>\<open>split()\<close> gives the empty list, \<^verbatim>\<open>[0]\<close> raises \<^verbatim>\<open>IndexError\<close>, and the exception
  leaves \<open>llm_classify\<close> and \<open>classify_intent\<close>; no label is returned.
\<close>

theorem blank_reply_raises_index_error:
  "llm_classify ''xyz'' (reply_model ''  '') empty_state =
     (Inl IndexError, empty_state\<lparr>calls := [(0, ''Q: xyz'')]\<rparr>) \<and>
   llm_classify ''xyz'' (reply_model []) empty_state =
     (Inl IndexError, empty_state\<lparr>calls := [(0, ''Q: xyz'')]\<rparr>) \<and>
   fst (classify_intent ''xyz'' (Some (reply_model ''  '')) empty_state) = Inl IndexError \<and>
   fst (classify_intent ''xyz'' (Some (reply_model [])) empty_state) = Inl IndexError"
  by (simp add: classify_with_model [OF ambiguous_xyz] Let_def norm_xyz scores_xyz llm_miss
      llm_classify_body_def split_blank split_none empty_state_def)

text \<open>
  For an answer that holds a token, the first token decides, by the substring test.
\<close>

lemma first_token_decides:
  assumes "invoke m (length (calls st)) (''Q: '' @ qn) = Inr content"
    and "str_split (str_lower (str_strip content)) = token # rest"
  shows "fst (llm_classify_body qn m st) =
           Inr (if str_in ''sql'' token then ''sql'' else ''semantic'')"
  using assms by (simp add: llm_classify_body_def Let_def)

lemma str_in_iff: "str_in sub s \<longleftrightarrow> (\<exists>pre post. s = pre @ sub @ post)"
proof (induction s)
  case Nil
  then show ?case by auto
next
  case (Cons c cs)
  show ?case
  proof (cases "prefix sub (c # cs)")
    case True
    then obtain post where "c # cs = sub @ post" by (auto simp: prefix_def)
    then have "c # cs = [] @ sub @ post" by simp
    with True show ?thesis by (metis str_in.simps(2))
  next
    case False
    have "(\<exists>pre post. c # cs = pre @ sub @ post) \<longleftrightarrow> (\<exists>pre post. cs = pre @ sub @ post)"
    proof
      assume "\<exists>pre post. c # cs = pre @ sub @ post"
      then obtain pre post where e: "c # cs = pre @ sub @ post" by blast
      with False have "pre \<noteq> []" by (auto simp: prefix_def)
      then obtain pre' where "pre = c # pre'" using e by (cases pre) auto
      with e have "cs = pre' @ sub @ post" by simp
      then show "\<exists>pre post. cs = pre @ sub @ post" by blast
    next
      assume "\<exists>pre post. cs = pre @ sub @ post"
      then obtain pre post where "cs = pre @ sub @ post" by blast
      then have "c # cs = (c # pre) @ sub @ post" by simp
      then show "\<exists>pre post. c # cs = pre @ sub @ post" by blast
    qed
    with False Cons.IH show ?thesis by simp
  qed
qed

text \<open>
  Claim C4, as stated, fails: \<^verbatim>\<open>XYZ\<close> and \<^verbatim>\<open>xyz\<close> are equal after case folding and
  both ambiguous, yet classifying one after the other invokes the model twice.
\<close>

theorem case_variants_each_invoke_model:
  "str_lower ''XYZ'' = str_lower ''xyz'' \<and> is_ambiguous ''XYZ'' \<and> is_ambiguous ''xyz'' \<and>
   calls (snd (classify_intent ''xyz'' (Some (reply_model ''semantic''))
            (snd (classify_intent ''XYZ'' (Some (reply_model ''semantic'')) empty_state)))) =
     [(0, ''Q: XYZ''), (0, ''Q: xyz'')]"
  by (simp add: classify_with_model [OF ambiguous_xyz] classify_with_model [OF ambiguous_XYZ]
      ambiguous_xyz ambiguous_XYZ Let_def norm_xyz norm_XYZ scores_xyz llm_miss body_semantic
      take_maxsize_Cons empty_state_def str_lower_def lower_char_table lower_char_upper_table)

text \<open>
  Claim C4, amended. The key of the cache is the question exactly as passed, paired
  with the model. With a hashable model, a call whose key is in the cache returns the
  stored label and invokes nothing; a call whose key is not in the cache invokes the
  model exactly once, whatever other questions are cached.
\<close>

theorem cache_key_is_exact_question:
  assumes "hashable m"
  shows "(map_of (cache st) (qn, model_id m) = Some v \<longrightarrow>
            fst (llm_classify qn m st) = Inr v \<and> calls (snd (llm_classify qn m st)) = calls st) \<and>
         (map_of (cache st) (qn, model_id m) = None \<longrightarrow>
            calls (snd (llm_classify qn m st)) = calls st @ [(model_id m, ''Q: '' @ qn)])"
  using assms by (auto simp: llm_hit llm_miss split: sum.splits)

theorem cache_key_is_exact_question_witness:
  "hashable (reply_model ''sql'') \<and>
   map_of (cache (empty_state\<lparr>cache := [((''XYZ'', 0), ''semantic'')]\<rparr>))
     (''XYZ'', model_id (reply_model ''sql'')) = Some ''semantic'' \<and>
   fst (llm_classify ''XYZ'' (reply_model ''sql'')
          (empty_state\<lparr>cache := [((''XYZ'', 0), ''semantic'')]\<rparr>)) = Inr ''semantic'' \<and>
   calls (snd (llm_classify ''XYZ'' (reply_model ''sql'')
          (empty_state\<lparr>cache := [((''XYZ'', 0), ''semantic'')]\<rparr>))) = [] \<and>
   map_of (cache (empty_state\<lparr>cache := [((''XYZ'', 0), ''semantic'')]\<rparr>))
     (''xyz'', model_id (reply_model ''sql'')) = None \<and>
   calls (snd (llm_classify ''xyz'' (reply_model ''sql'')
          (empty_state\<lparr>cache := [((''XYZ'', 0), ''semantic'')]\<rparr>))) = [(0, ''Q: xyz'')]"
  using cache_key_is_exact_question
    [of "reply_model ''sql''" "empty_state\<lparr>cache := [((''XYZ'', 0), ''semantic'')]\<rparr>"
      "''XYZ''" "''semantic''"]
    cache_key_is_exact_question
    [of "reply_model ''sql''" "empty_state\<lparr>cache := [((''XYZ'', 0), ''semantic'')]\<rparr>"
      "''xyz''"]
  by (simp add: empty_state_def)

text \<open>
  Claim C9, as stated, fails: \<^verbatim>\<open>lru_cache\<close> stores nothing when the body raises, so
  with a model whose \<^verbatim>\<open>invoke\<close> raises, two calls of \<open>classify_intent\<close> with the
  ambiguous question \<^verbatim>\<open>xyz\<close> both raise and invoke the model twice.
\<close>

theorem raising_model_invoked_twice:
  "is_ambiguous ''xyz'' \<and>
   fst (classify_intent ''xyz'' (Some (raising_model ''timeout'')) empty_state) =
     Inl (InvokeError ''timeout'') \<and>
   fst (classify_intent ''xyz'' (Some (raising_model ''timeout''))
          (snd (classify_intent ''xyz'' (Some (raising_model ''timeout'')) empty_state))) =
     Inl (InvokeError ''timeout'') \<and>
   calls (snd (classify_intent ''xyz'' (Some (raising_model ''timeout''))
            (snd (classify_intent ''xyz'' (Some (raising_model ''timeout'')) empty_state)))) =
     [(0, ''Q: xyz''), (0, ''Q: xyz'')]"
  by (simp add: classify_with_model [OF ambiguous_xyz] ambiguous_xyz Let_def norm_xyz scores_xyz
      llm_miss body_raises empty_state_def log_ambiguous_def)

text \<open>
  Claim C9, amended. When a call of \<open>classify_intent\<close> with a model has returned a
  label, a second call with the same question and the same model returns the same
  label and invokes the model not at all, so that the two calls invoke it at most
  once; for an ambiguous question the label is in the cache after the first call.
\<close>

theorem second_call_served_from_cache:
  assumes "classify_intent qn (Some m) st = (Inr l, st1)"
  shows "\<exists>st2. classify_intent qn (Some m) st1 = (Inr l, st2) \<and>
           calls st2 = calls st1 \<and>
           length (calls st1) \<le> Suc (length (calls st)) \<and>
           (is_ambiguous qn \<longrightarrow> map_of (cache st1) (qn, model_id m) = Some l)"
proof (cases "is_ambiguous qn")
  case False
  then obtain l' meth s k
    where c: "\<And>mo st. classify_intent qn mo st = (Inr l', log_decision qn l' meth s k st)"
    by (rule classify_not_ambiguous) blast
  from assms c [of "Some m" st] have "l' = l" and "st1 = log_decision qn l meth s k st"
    by auto
  with c [of "Some m" st1] False show ?thesis by simp
next
  case True
  let ?s = "fst (compute_scores (str_strip (str_lower qn)))"
  obtain r st' where h: "llm_classify qn m (log_ambiguous qn ?s ?s st) = (r, st')"
    by (cases "llm_classify qn m (log_ambiguous qn ?s ?s st)")
  with assms True have r: "r = Inr l" and st1: "st1 = log_decision qn l ''llm_fallback'' ?s ?s st'"
    by (auto simp: classify_with_model Let_def split: sum.splits)
  from llm_returns [OF h [unfolded r]]
  have hm: "hashable m" and hit: "map_of (cache st') (qn, model_id m) = Some l"
    and len: "calls st' = calls st \<or> calls st' = calls st @ [(model_id m, ''Q: '' @ qn)]"
    by simp_all
  from hit st1 have hit1: "map_of (cache (log_ambiguous qn ?s ?s st1)) (qn, model_id m) = Some l"
    by simp
  have "classify_intent qn (Some m) st1 =
          (Inr l, log_decision qn l ''llm_fallback'' ?s ?s
             ((log_ambiguous qn ?s ?s st1)
              \<lparr>cache := ((qn, model_id m), l) #
                 filter (\<lambda>e. fst e \<noteq> (qn, model_id m)) (cache (log_ambiguous qn ?s ?s st1))\<rparr>))"
    by (simp add: classify_with_model [OF True] Let_def llm_hit [OF hm hit1])
  moreover from len st1 have "length (calls st1) \<le> Suc (length (calls st))"
    by auto
  ultimately show ?thesis using hit st1 by simp
qed

theorem second_call_served_from_cache_witness:
  "classify_intent ''xyz'' (Some (reply_model ''semantic'')) empty_state =
     (Inr ''semantic'',
      \<lparr>log = [Ambiguous ''xyz'' 0 0, Decision ''xyz'' ''semantic'' ''llm_fallback'' 0 0],
       console = [''xyz''], cache = [((''xyz'', 0), ''semantic'')],
       calls = [(0, ''Q: xyz'')]\<rparr>) \<and>
   is_ambiguous ''xyz'' \<and>
   (\<exists>st2. classify_intent ''xyz'' (Some (reply_model ''semantic''))
            \<lparr>log = [Ambiguous ''xyz'' 0 0, Decision ''xyz'' ''semantic'' ''llm_fallback'' 0 0],
             console = [''xyz''], cache = [((''xyz'', 0), ''semantic'')],
             calls = [(0, ''Q: xyz'')]\<rparr> = (Inr ''semantic'', st2) \<and>
          calls st2 = [(0, ''Q: xyz'')])"
proof -
  have first: "classify_intent ''xyz'' (Some (reply_model ''semantic'')) empty_state =
     (Inr ''semantic'',
      \<lparr>log = [Ambiguous ''xyz'' 0 0, Decision ''xyz'' ''semantic'' ''llm_fallback'' 0 0],
       console = [''xyz''], cache = [((''xyz'', 0), ''semantic'')],
       calls = [(0, ''Q: xyz'')]\<rparr>)"
    by (simp add: classify_with_model [OF ambiguous_xyz] Let_def norm_xyz scores_xyz llm_miss
        body_semantic take_maxsize_Cons empty_state_def log_ambiguous_def log_decision_def)
  from second_call_served_from_cache [OF first] first ambiguous_xyz show ?thesis
    by simp
qed

section \<open>The word boundary matcher\<close>

text \<open>
  What the search for \<^verbatim>\<open>\bkeyword\b\<close> decides: the text splits into a part before,
  the keyword and a part after, with a word boundary on each side of the keyword.
\<close>

lemma read_lit_exact:
  "read_lit False kw prev s =
     (if prefix kw s then Some (if kw = [] then prev else Some (last kw), drop (length kw) s)
      else None)"
proof (induction kw arbitrary: prev s)
  case Nil
  then show ?case by simp
next
  case (Cons k ks)
  then show ?case by (cases s) (auto simp: char_eq_def)
qed

lemma search_from_iff:
  "search_from ic items prev s \<longleftrightarrow>
     (\<exists>pre post. s = pre @ post \<and>
        matches ic items (if pre = [] then prev else Some (last pre)) post)"
proof (induction s arbitrary: prev)
  case Nil
  then show ?case by simp
next
  case (Cons c cs)
  have "(\<exists>pre post. c # cs = pre @ post \<and>
           matches ic items (if pre = [] then prev else Some (last pre)) post) \<longleftrightarrow>
        matches ic items prev (c # cs) \<or>
        (\<exists>pre post. cs = pre @ post \<and>
           matches ic items (if pre = [] then Some c else Some (last pre)) post)"
    (is "?L \<longleftrightarrow> ?M \<or> ?R")
  proof
    assume ?L
    then obtain pre post where e: "c # cs = pre @ post"
      and m: "matches ic items (if pre = [] then prev else Some (last pre)) post"
      by blast
    show "?M \<or> ?R"
    proof (cases pre)
      case Nil
      with e m show ?thesis by simp
    next
      case (Cons a pre')
      with e have "a = c" "cs = pre' @ post" by simp_all
      moreover from Cons m \<open>a = c\<close>
      have "matches ic items (if pre' = [] then Some c else Some (last pre')) post"
        by (cases "pre' = []") simp_all
      ultimately show ?thesis by blast
    qed
  next
    assume "?M \<or> ?R"
    then show ?L
    proof
      assume ?M
      then have "c # cs = [] @ (c # cs) \<and>
        matches ic items (if ([]::string) = [] then prev else Some (last [])) (c # cs)"
        by simp
      then show ?L by blast
    next
      assume ?R
      then obtain pre post where e: "cs = pre @ post"
        and m: "matches ic items (if pre = [] then Some c else Some (last pre)) post"
        by blast
      then have "c # cs = (c # pre) @ post \<and>
        matches ic items (if c # pre = [] then prev else Some (last (c # pre))) post"
        by (cases "pre = []") simp_all
      then show ?L by blast
    qed
  qed
  with Cons.IH [of "Some c"] show ?case by simp
qed

lemma contains_keyword_iff:
  "contains_keyword text kw \<longleftrightarrow>
     (\<exists>pre post. text = pre @ kw @ post \<and>
        word_boundary (last_char pre) (first_char (kw @ post)) \<and>
        word_boundary (last_char (pre @ kw)) (first_char post))"
proof -
  have m: "matches False [WordB, Lit kw, WordB] p s \<longleftrightarrow>
           word_boundary p (first_char s) \<and> prefix kw s \<and>
           word_boundary (if kw = [] then p else Some (last kw)) (first_char (drop (length kw) s))"
    for p s
    by (simp add: read_lit_exact)
  show ?thesis
  proof
    assume "contains_keyword text kw"
    then obtain pre s where t: "text = pre @ s"
      and h: "matches False [WordB, Lit kw, WordB] (if pre = [] then None else Some (last pre)) s"
      unfolding contains_keyword_def re_search_def search_from_iff by blast
    have lp: "(if pre = [] then None else Some (last pre)) = last_char pre"
      by (simp add: last_char_def)
    from h [unfolded m lp]
    have b1: "word_boundary (last_char pre) (first_char s)" and p: "prefix kw s"
      and b2: "word_boundary (if kw = [] then last_char pre else Some (last kw))
                 (first_char (drop (length kw) s))"
      by simp_all
    from p obtain post where s: "s = kw @ post" by (auto simp: prefix_def)
    have "last_char (pre @ kw) = (if kw = [] then last_char pre else Some (last kw))"
      by (simp add: last_char_def)
    with b1 b2 s t have "text = pre @ kw @ post \<and>
        word_boundary (last_char pre) (first_char (kw @ post)) \<and>
        word_boundary (last_char (pre @ kw)) (first_char post)"
      by simp
    then show "\<exists>pre post. text = pre @ kw @ post \<and>
        word_boundary (last_char pre) (first_char (kw @ post)) \<and>
        word_boundary (last_char (pre @ kw)) (first_char post)"
      by blast
  next
    assume "\<exists>pre post. text = pre @ kw @ post \<and>
        word_boundary (last_char pre) (first_char (kw @ post)) \<and>
        word_boundary (last_char (pre @ kw)) (first_char post)"
    then obtain pre post where t: "text = pre @ kw @ post"
      and b1: "word_boundary (last_char pre) (first_char (kw @ post))"
      and b2: "word_boundary (last_char (pre @ kw)) (first_char post)"
      by blast
    have "last_char (pre @ kw) = (if kw = [] then last_char pre else Some (last kw))"
      by (simp add: last_char_def)
    with b1 b2
    have "matches False [WordB, Lit kw, WordB] (last_char pre) (kw @ post)"
      unfolding m by simp
    then have "matches False [WordB, Lit kw, WordB] (if pre = [] then None else Some (last pre))
            (kw @ post)"
      by (simp only: last_char_def)
    with t show "contains_keyword text kw"
      unfolding contains_keyword_def re_search_def search_from_iff by blast
  qed
qed

lemma wordy_last_ext:
  assumes "l = [] \<or> \<not> is_word_char (last l)"
  shows "(case last_char (l @ x) of None \<Rightarrow> False | Some c \<Rightarrow> is_word_char c) =
         (case last_char x of None \<Rightarrow> False | Some c \<Rightarrow> is_word_char c)"
  using assms by (auto simp: last_char_def)

lemma wordy_first_ext:
  assumes "r = [] \<or> \<not> is_word_char (hd r)"
  shows "(case first_char (x @ r) of None \<Rightarrow> False | Some c \<Rightarrow> is_word_char c) =
         (case first_char x of None \<Rightarrow> False | Some c \<Rightarrow> is_word_char c)"
  using assms by (cases x; cases r) (auto simp: first_char_def)

lemma word_boundary_ext:
  assumes "l = [] \<or> \<not> is_word_char (last l)" and "r = [] \<or> \<not> is_word_char (hd r)"
  shows "word_boundary (last_char (l @ x)) (first_char (y @ r)) =
         word_boundary (last_char x) (first_char y)"
  unfolding word_boundary_def wordy_last_ext [OF assms(1)] wordy_first_ext [OF assms(2)] ..

lemma contains_keyword_extend:
  assumes "contains_keyword q kw"
    and l: "l = [] \<or> \<not> is_word_char (last l)" and r: "r = [] \<or> \<not> is_word_char (hd r)"
  shows "contains_keyword (l @ q @ r) kw"
proof -
  from assms(1) obtain pre post where q: "q = pre @ kw @ post"
    and b1: "word_boundary (last_char pre) (first_char (kw @ post))"
    and b2: "word_boundary (last_char (pre @ kw)) (first_char post)"
    unfolding contains_keyword_iff by blast
  from b1 have "word_boundary (last_char (l @ pre)) (first_char ((kw @ post) @ r))"
    by (simp only: word_boundary_ext [OF l r])
  moreover from b2 have "word_boundary (last_char (l @ pre @ kw)) (first_char (post @ r))"
    by (simp only: word_boundary_ext [OF l r])
  moreover from q have "l @ q @ r = (l @ pre) @ kw @ (post @ r)"
    by simp
  ultimately have "l @ q @ r = (l @ pre) @ kw @ (post @ r) \<and>
      word_boundary (last_char (l @ pre)) (first_char (kw @ (post @ r))) \<and>
      word_boundary (last_char ((l @ pre) @ kw)) (first_char (post @ r))"
    by simp
  then show ?thesis
    unfolding contains_keyword_iff by blast
qed

lemma wb_left:
  assumes "kw \<noteq> []" and "is_word_char (hd kw)"
  shows "word_boundary (last_char pre) (first_char (kw @ post)) \<longleftrightarrow>
         (pre = [] \<or> \<not> is_word_char (last pre))"
  using assms by (cases kw) (auto simp: word_boundary_def last_char_def first_char_def)

lemma wb_right:
  assumes "kw \<noteq> []" and "is_word_char (last kw)"
  shows "word_boundary (last_char (pre @ kw)) (first_char post) \<longleftrightarrow>
         (post = [] \<or> \<not> is_word_char (hd post))"
  using assms by (cases post) (auto simp: word_boundary_def last_char_def first_char_def)

lemma contains_keyword_whole_word:
  assumes "kw \<noteq> []" and "is_word_char (hd kw)" and "is_word_char (last kw)"
  shows "contains_keyword text kw \<longleftrightarrow>
           (\<exists>pre post. text = pre @ kw @ post \<and>
              (pre = [] \<or> \<not> is_word_char (last pre)) \<and>
              (post = [] \<or> \<not> is_word_char (hd post)))"
  unfolding contains_keyword_iff wb_left [OF assms(1,2)] wb_right [OF assms(1,3)] ..

lemma count_mono:
  assumes "\<And>x. x \<in> set xs \<Longrightarrow> P x \<Longrightarrow> Q x"
  shows "length (filter P xs) \<le> length (filter Q xs)"
  using assms by (induction xs) auto

lemma count_strict:
  assumes "\<And>x. x \<in> set xs \<Longrightarrow> P x \<Longrightarrow> Q x" and "p \<in> set xs" and "\<not> P p" and "Q p"
  shows "length (filter P xs) < length (filter Q xs)"
  using assms
proof (induction xs)
  case Nil
  then show ?case by simp
next
  case (Cons x xs)
  have mono: "length (filter P xs) \<le> length (filter Q xs)"
    using Cons.prems(1) by (intro count_mono) simp
  show ?case
  proof (cases "x = p")
    case True
    with Cons.prems mono show ?thesis by simp
  next
    case False
    with Cons.prems have "p \<in> set xs" by simp
    with Cons have "length (filter P xs) < length (filter Q xs)" by simp
    with Cons.prems(1) [of x] show ?thesis by auto
  qed
qed

lemma scores_as_counts:
  "compute_scores q =
     (int (length (filter (contains_keyword q) DEFINITE_SQL)),
      int (length (filter (contains_keyword q) DEFINITE_SEMANTIC)))"
  by (simp add: compute_scores_def sum_ones)

text \<open>
  Claim C5, as stated, fails: appending the structured phrase \<^verbatim>\<open>in stock\<close> to the
  question \<^verbatim>\<open>available\<close> makes the semantic phrase \<^verbatim>\<open>available in\<close> match, so the
  semantic score changes from 0 to 1.
\<close>

lemma scores_available: "compute_scores ''available'' = (0, 0)"
  by (simp add: compute_scores_def DEFINITE_SQL_def DEFINITE_SEMANTIC_def kw_eval)

lemma scores_available_in_stock: "compute_scores ''available in stock'' = (1, 1)"
  by (simp add: compute_scores_def DEFINITE_SQL_def DEFINITE_SEMANTIC_def kw_eval)

lemma in_stock_phrase: "''in stock'' \<in> set DEFINITE_SQL"
  by (simp add: DEFINITE_SQL_def)

lemma in_stock_not_in_available: "\<not> contains_keyword ''available'' ''in stock''"
  by (simp add: kw_eval)

lemma in_stock_in_extension: "contains_keyword ''available in stock'' ''in stock''"
  by (simp add: kw_eval)

theorem appended_phrase_changes_semantic_score:
  "''in stock'' \<in> set DEFINITE_SQL \<and> \<not> contains_keyword ''available'' ''in stock'' \<and>
   contains_keyword (''available'' @ '' '' @ ''in stock'') ''in stock'' \<and>
   snd (compute_scores ''available'') = 0 \<and>
   snd (compute_scores (''available'' @ '' '' @ ''in stock'')) = 1"
  by (simp add: in_stock_phrase in_stock_not_in_available in_stock_in_extension
      scores_available scores_available_in_stock)

text \<open>
  Claim C5, amended. Let a structured phrase not match a question, and let the
  question be extended, on either side, by text that is separated from it by a
  character that is not a word character, so that the phrase matches. Then every
  phrase that matched still matches: the structured score increases and the
  semantic score does not decrease (it may increase).
\<close>

theorem extension_raises_structured_score:
  assumes "p \<in> set DEFINITE_SQL" and "\<not> contains_keyword q p"
    and "contains_keyword (l @ q @ r) p"
    and "l = [] \<or> \<not> is_word_char (last l)" and "r = [] \<or> \<not> is_word_char (hd r)"
  shows "fst (compute_scores q) < fst (compute_scores (l @ q @ r)) \<and>
         snd (compute_scores q) \<le> snd (compute_scores (l @ q @ r))"
proof -
  have keep: "contains_keyword (l @ q @ r) kw" if "contains_keyword q kw" for kw
    using that assms(4,5) by (rule contains_keyword_extend)
  have "length (filter (contains_keyword q) DEFINITE_SQL)
          < length (filter (contains_keyword (l @ q @ r)) DEFINITE_SQL)"
    using keep assms(1,2,3) by (intro count_strict [where p = p]) simp_all
  moreover have "length (filter (contains_keyword q) DEFINITE_SEMANTIC)
          \<le> length (filter (contains_keyword (l @ q @ r)) DEFINITE_SEMANTIC)"
    using keep by (intro count_mono) simp
  ultimately show ?thesis
    by (simp add: scores_as_counts)
qed

theorem extension_raises_structured_score_witness:
  "''in stock'' \<in> set DEFINITE_SQL \<and> \<not> contains_keyword ''available'' ''in stock'' \<and>
   contains_keyword ([] @ ''available'' @ '' in stock'') ''in stock'' \<and>
   \<not> is_word_char (hd '' in stock'') \<and>
   fst (compute_scores ''available'') < fst (compute_scores ([] @ ''available'' @ '' in stock'')) \<and>
   snd (compute_scores ''available'') \<le> snd (compute_scores ([] @ ''available'' @ '' in stock''))"
  using extension_raises_structured_score
    [of "''in stock''" "''available''" "[]" "'' in stock''"]
  by (simp add: in_stock_phrase in_stock_not_in_available in_stock_in_extension
      word_char_table)

section \<open>Whole words, case and white space\<close>

lemma isalnumI:
  assumes "code_point c = m"
    and "(65 \<le> m \<and> m \<le> 90) \<or> (97 \<le> m \<and> m \<le> 122) \<or> (192 \<le> m \<and> m \<le> 214) \<or>
         (216 \<le> m \<and> m \<le> 246) \<or> (248 \<le> m \<and> m \<le> 255)"
  shows "isalnum c"
  using assms unfolding isalnum_def in_range_def by auto

lemma isalnum_lower_bound: "isalnum c \<Longrightarrow> 48 \<le> code_point c"
  unfolding isalnum_def in_range_def by auto

lemma isalnum_not_133: "isalnum c \<Longrightarrow> code_point c \<noteq> 133"
  unfolding isalnum_def in_range_def by auto

lemma isalnum_not_160: "isalnum c \<Longrightarrow> code_point c \<noteq> 160"
  unfolding isalnum_def in_range_def by auto

lemma lower_range_shift:
  fixes n :: nat
  assumes "(65 \<le> n \<and> n \<le> 90) \<or> (192 \<le> n \<and> n \<le> 222 \<and> n \<noteq> 215)"
  shows "(65 \<le> n + 32 \<and> n + 32 \<le> 90) \<or> (97 \<le> n + 32 \<and> n + 32 \<le> 122) \<or>
         (192 \<le> n + 32 \<and> n + 32 \<le> 214) \<or> (216 \<le> n + 32 \<and> n + 32 \<le> 246) \<or>
         (248 \<le> n + 32 \<and> n + 32 \<le> 255)"
  using assms by arith

lemma upper_range_alnum:
  fixes n :: nat
  assumes "(65 \<le> n \<and> n \<le> 90) \<or> (192 \<le> n \<and> n \<le> 222 \<and> n \<noteq> 215)"
  shows "(65 \<le> n \<and> n \<le> 90) \<or> (97 \<le> n \<and> n \<le> 122) \<or>
         (192 \<le> n \<and> n \<le> 214) \<or> (216 \<le> n \<and> n \<le> 246) \<or> (248 \<le> n \<and> n \<le> 255)"
  using assms by arith

lemma is_word_lower: "is_word_char (lower_char c) = is_word_char c"
proof (cases "in_range 65 90 c \<or> (in_range 192 222 c \<and> code_point c \<noteq> 215)")
  case False
  then have "lower_char c = c"
    unfolding lower_char_def by (rule if_not_P)
  then show ?thesis by simp
next
  case True
  define n where "n = code_point c"
  from True have n: "(65 \<le> n \<and> n \<le> 90) \<or> (192 \<le> n \<and> n \<le> 222 \<and> n \<noteq> 215)"
    by (simp add: in_range_def n_def)
  then have "n \<le> 222" by arith
  from True have "lower_char c = char_of (n + 32)"
    unfolding lower_char_def n_def by (rule if_P)
  then have "code_point (lower_char c) = (n + 32) mod 256"
    by (simp add: code_point_def)
  also from \<open>n \<le> 222\<close> have "\<dots> = n + 32"
    by simp
  finally have "code_point (lower_char c) = n + 32" .
  then have "isalnum (lower_char c)"
    using lower_range_shift [OF n] by (rule isalnumI)
  moreover have "code_point c = n" by (simp add: n_def)
  then have "isalnum c"
    using upper_range_alnum [OF n] by (rule isalnumI)
  ultimately show ?thesis by (simp add: is_word_char_def)
qed

lemma space_not_word:
  assumes "isspace c"
  shows "\<not> is_word_char c"
proof -
  define n where "n = code_point c"
  from assms have sp: "(9 \<le> n \<and> n \<le> 13) \<or> (28 \<le> n \<and> n \<le> 32) \<or> n = 133 \<or> n = 160"
    by (simp add: isspace_def in_range_def n_def)
  have "c \<noteq> CHR ''_''"
  proof
    assume "c = CHR ''_''"
    then have "n = 95" by (simp add: n_def code_point_def)
    with sp show False by arith
  qed
  moreover have "\<not> isalnum c"
  proof
    assume a: "isalnum c"
    have "48 \<le> n" "n \<noteq> 133" "n \<noteq> 160"
      using isalnum_lower_bound [OF a] isalnum_not_133 [OF a] isalnum_not_160 [OF a]
      by (simp_all add: n_def)
    with sp show False by arith
  qed
  ultimately show ?thesis by (simp add: is_word_char_def)
qed

lemma phrases_word_edged:
  "list_all (\<lambda>kw. kw \<noteq> [] \<and> is_word_char (hd kw) \<and> is_word_char (last kw))
     (DEFINITE_SQL @ DEFINITE_SEMANTIC @ OVERRIDE_SQL_KEYWORDS)"
  by (simp add: DEFINITE_SQL_def DEFINITE_SEMANTIC_def OVERRIDE_SQL_KEYWORDS_def
      word_char_table)

lemma rev_split: "xs = rev (dropWhile P (rev xs)) @ rev (takeWhile P (rev xs))"
proof -
  have "rev (dropWhile P (rev xs)) @ rev (takeWhile P (rev xs)) =
        rev (takeWhile P (rev xs) @ dropWhile P (rev xs))"
    by (simp only: rev_append)
  also have "\<dots> = rev (rev xs)"
    by (simp only: takeWhile_dropWhile_id)
  finally show ?thesis by simp
qed

lemma strip_decompose:
  "\<exists>ws1 ws2. t = ws1 @ str_strip t @ ws2 \<and>
     (ws1 = [] \<or> isspace (last ws1)) \<and> (ws2 = [] \<or> isspace (hd ws2))"
proof -
  let ?ws1 = "takeWhile isspace t"
  let ?u = "dropWhile isspace t"
  let ?ws2 = "rev (takeWhile isspace (rev ?u))"
  have u: "?u = str_strip t @ ?ws2"
    unfolding str_strip_def by (rule rev_split)
  from u have "?ws1 @ ?u = ?ws1 @ str_strip t @ ?ws2"
    by (rule arg_cong)
  then have t: "t = ?ws1 @ str_strip t @ ?ws2"
    by (simp only: takeWhile_dropWhile_id)
  have "\<forall>c \<in> set ?ws1. isspace c"
    by (auto dest: set_takeWhileD)
  then have l: "?ws1 = [] \<or> isspace (last ?ws1)"
    by (cases "?ws1 = []") (auto dest: last_in_set)
  have r: "?ws2 = [] \<or> isspace (hd ?ws2)"
  proof (cases "takeWhile isspace (rev ?u) = []")
    case True
    then show ?thesis by simp
  next
    case False
    then have "last (takeWhile isspace (rev ?u)) \<in> set (takeWhile isspace (rev ?u))"
      by (rule last_in_set)
    then have "isspace (last (takeWhile isspace (rev ?u)))"
      by (rule set_takeWhileD [THEN conjunct2])
    with False show ?thesis by (simp add: hd_rev)
  qed
  from t l r show ?thesis by blast
qed

lemma contains_keyword_unstrip:
  assumes "contains_keyword (str_strip t) kw"
  shows "contains_keyword t kw"
proof -
  obtain ws1 ws2 where t: "t = ws1 @ str_strip t @ ws2"
    and "ws1 = [] \<or> isspace (last ws1)" and "ws2 = [] \<or> isspace (hd ws2)"
    using strip_decompose by blast
  then have "ws1 = [] \<or> \<not> is_word_char (last ws1)" and "ws2 = [] \<or> \<not> is_word_char (hd ws2)"
    by (auto dest: space_not_word)
  with assms have "contains_keyword (ws1 @ str_strip t @ ws2) kw"
    by (rule contains_keyword_extend)
  then show ?thesis by (subst t)
qed

lemma dropWhile_keeps_word:
  assumes "kw \<noteq> []" and "is_word_char (hd kw)"
  shows "dropWhile isspace (pre @ kw @ post) = dropWhile isspace pre @ kw @ post"
proof -
  from assms have "\<not> isspace (hd kw)" by (auto dest: space_not_word)
  with assms(1) have "dropWhile isspace (kw @ post) = kw @ post"
    by (cases kw) simp_all
  then show ?thesis
    by (simp add: dropWhile_append)
qed

lemma contains_keyword_strip:
  assumes "contains_keyword t kw"
    and kw: "kw \<noteq> []" "is_word_char (hd kw)" "is_word_char (last kw)"
  shows "contains_keyword (str_strip t) kw"
proof -
  from assms obtain pre post where t: "t = pre @ kw @ post"
    and l: "pre = [] \<or> \<not> is_word_char (last pre)"
    and r: "post = [] \<or> \<not> is_word_char (hd post)"
    unfolding contains_keyword_whole_word [OF kw] by blast
  let ?pre = "dropWhile isspace pre"
  let ?post = "rev (dropWhile isspace (rev post))"
  have 1: "dropWhile isspace t = ?pre @ kw @ post"
    using t kw by (simp add: dropWhile_keeps_word)
  have "rev kw \<noteq> []" "is_word_char (hd (rev kw))"
    using kw by (simp_all add: hd_rev)
  then have "dropWhile isspace (rev post @ rev kw @ rev ?pre) =
             dropWhile isspace (rev post) @ rev kw @ rev ?pre"
    by (rule dropWhile_keeps_word)
  with 1 have s: "str_strip t = ?pre @ kw @ ?post"
    by (simp add: str_strip_def)
  have l': "?pre = [] \<or> \<not> is_word_char (last ?pre)"
  proof (cases "?pre = []")
    case False
    from False have "last (takeWhile isspace pre @ ?pre) = last ?pre"
      by (rule last_appendR)
    then have "last pre = last ?pre"
      by (simp only: takeWhile_dropWhile_id)
    moreover from False have "pre \<noteq> []" by auto
    ultimately show ?thesis using l by simp
  qed simp
  have r': "?post = [] \<or> \<not> is_word_char (hd ?post)"
  proof (cases "?post = []")
    case False
    have "post = ?post @ rev (takeWhile isspace (rev post))" by (rule rev_split)
    then have "hd post = hd (?post @ rev (takeWhile isspace (rev post)))"
      by (rule arg_cong)
    also from False have "\<dots> = hd ?post"
      by (rule hd_append2)
    finally have "hd post = hd ?post" .
    moreover from False have "post \<noteq> []" by auto
    ultimately show ?thesis using r by simp
  qed simp
  from s l' r' show ?thesis
    unfolding contains_keyword_whole_word [OF kw] by blast
qed

lemma contains_keyword_lower:
  assumes kw: "kw \<noteq> []" "is_word_char (hd kw)" "is_word_char (last kw)"
  shows "contains_keyword (str_lower text) kw \<longleftrightarrow>
           (\<exists>pre mid post. text = pre @ mid @ post \<and> str_lower mid = kw \<and>
              (pre = [] \<or> \<not> is_word_char (last pre)) \<and>
              (post = [] \<or> \<not> is_word_char (hd post)))"
proof
  assume "contains_keyword (str_lower text) kw"
  then obtain pre' post' where t: "str_lower text = pre' @ kw @ post'"
    and l: "pre' = [] \<or> \<not> is_word_char (last pre')"
    and r: "post' = [] \<or> \<not> is_word_char (hd post')"
    unfolding contains_keyword_whole_word [OF kw] by blast
  from t obtain pre rest where 1: "text = pre @ rest" "pre' = map lower_char pre"
    "kw @ post' = map lower_char rest"
    unfolding str_lower_def map_eq_append_conv by blast
  from 1(3) obtain mid post where 2: "rest = mid @ post" "kw = map lower_char mid"
    "post' = map lower_char post"
    unfolding append_eq_map_conv by blast
  from l 1(2) have "pre = [] \<or> \<not> is_word_char (last pre)"
    by (cases "pre = []") (auto simp: last_map is_word_lower)
  moreover from r 2(3) have "post = [] \<or> \<not> is_word_char (hd post)"
    by (cases post) (auto simp: is_word_lower)
  ultimately have "text = pre @ mid @ post \<and> str_lower mid = kw \<and>
      (pre = [] \<or> \<not> is_word_char (last pre)) \<and> (post = [] \<or> \<not> is_word_char (hd post))"
    using 1(1) 2(1,2) by (simp add: str_lower_def)
  then show "\<exists>pre mid post. text = pre @ mid @ post \<and> str_lower mid = kw \<and>
              (pre = [] \<or> \<not> is_word_char (last pre)) \<and>
              (post = [] \<or> \<not> is_word_char (hd post))"
    by blast
next
  assume "\<exists>pre mid post. text = pre @ mid @ post \<and> str_lower mid = kw \<and>
              (pre = [] \<or> \<not> is_word_char (last pre)) \<and>
              (post = [] \<or> \<not> is_word_char (hd post))"
  then obtain pre mid post where t: "text = pre @ mid @ post" and m: "str_lower mid = kw"
    and l: "pre = [] \<or> \<not> is_word_char (last pre)"
    and r: "post = [] \<or> \<not> is_word_char (hd post)"
    by blast
  from l have "str_lower pre = [] \<or> \<not> is_word_char (last (str_lower pre))"
    by (cases "pre = []") (auto simp: str_lower_def last_map is_word_lower)
  moreover from r have "str_lower post = [] \<or> \<not> is_word_char (hd (str_lower post))"
    by (cases post) (auto simp: str_lower_def is_word_lower)
  moreover from t m have "str_lower text = str_lower pre @ kw @ str_lower post"
    by (simp add: str_lower_def)
  ultimately have "str_lower text = str_lower pre @ kw @ str_lower post \<and>
      (str_lower pre = [] \<or> \<not> is_word_char (last (str_lower pre))) \<and>
      (str_lower post = [] \<or> \<not> is_word_char (hd (str_lower post)))"
    by simp
  then show "contains_keyword (str_lower text) kw"
    unfolding contains_keyword_whole_word [OF kw] by blast
qed

lemma phrase_word_edged:
  assumes "kw \<in> set (DEFINITE_SQL @ DEFINITE_SEMANTIC @ OVERRIDE_SQL_KEYWORDS)"
  shows "kw \<noteq> []" and "is_word_char (hd kw)" and "is_word_char (last kw)"
  using phrases_word_edged assms unfolding list_all_iff by blast+

lemma unpopular_item: "\<not> contains_keyword ''unpopular item'' ''popular''"
  by (simp add: kw_eval)

lemma average_avg: "\<not> contains_keyword ''average'' ''avg''"
  by (simp add: kw_eval)

lemma popular_phrase: "''popular'' \<in> set (DEFINITE_SQL @ DEFINITE_SEMANTIC @ OVERRIDE_SQL_KEYWORDS)"
  by (simp add: DEFINITE_SQL_def)

lemma lower_Popular: "str_lower ''Popular'' = ''popular''"
  by code_simp

text \<open>
  Claim C6. For a phrase of the three lists and the question as \<open>classify_intent\<close>
  normalises it (lowered, then stripped), the matcher reports a match exactly when
  the question holds an occurrence of the phrase, up to case, that is neither
  preceded nor followed by a word character. The text \<^verbatim>\<open>unpopular item\<close> does not
  match \<^verbatim>\<open>popular\<close>, and \<^verbatim>\<open>average\<close> does not match \<^verbatim>\<open>avg\<close>.
\<close>

theorem keyword_matcher_whole_word:
  assumes "kw \<in> set (DEFINITE_SQL @ DEFINITE_SEMANTIC @ OVERRIDE_SQL_KEYWORDS)"
  shows "(contains_keyword (str_strip (str_lower text)) kw \<longleftrightarrow>
            (\<exists>pre mid post. text = pre @ mid @ post \<and> str_lower mid = kw \<and>
               (pre = [] \<or> \<not> is_word_char (last pre)) \<and>
               (post = [] \<or> \<not> is_word_char (hd post)))) \<and>
         \<not> contains_keyword ''unpopular item'' ''popular'' \<and>
         \<not> contains_keyword ''average'' ''avg''"
proof -
  note kw = phrase_word_edged [OF assms]
  have "contains_keyword (str_strip (str_lower text)) kw \<longleftrightarrow>
        contains_keyword (str_lower text) kw"
    using contains_keyword_unstrip contains_keyword_strip [OF _ kw] by blast
  then show ?thesis
    unfolding contains_keyword_lower [OF kw] using unpopular_item average_avg by simp
qed

theorem keyword_matcher_whole_word_witness:
  "''popular'' \<in> set (DEFINITE_SQL @ DEFINITE_SEMANTIC @ OVERRIDE_SQL_KEYWORDS) \<and>
   contains_keyword (str_strip (str_lower ''Popular color'')) ''popular''"
proof -
  have "''Popular color'' = [] @ ''Popular'' @ '' color'' \<and> str_lower ''Popular'' = ''popular'' \<and>
        (([]::string) = [] \<or> \<not> is_word_char (last [])) \<and>
        ('' color'' = [] \<or> \<not> is_word_char (hd '' color''))"
    by (simp add: lower_Popular word_char_table)
  then have "\<exists>pre mid post. ''Popular color'' = pre @ mid @ post \<and> str_lower mid = ''popular'' \<and>
        (pre = [] \<or> \<not> is_word_char (last pre)) \<and> (post = [] \<or> \<not> is_word_char (hd post))"
    by blast
  with keyword_matcher_whole_word [OF popular_phrase, of "''Popular color''"] popular_phrase
  show ?thesis by blast
qed

end
